theory Spec2Isabelle
  imports
    Main
    "HOL-Library.Product_Lexorder"
    "HOL-Library.List_Lexorder"
    "HOL-Library.Option_ord"
    "HOL-Library.AList"
begin

section \<open>Errors\<close>

text \<open>
  The exceptions the modelled code can raise. Python raises \<open>ValueError\<close> from
  \<open>int()\<close>, from \<open>time(h, m, s)\<close> and from \<open>datetime.strptime\<close>; the
  three raise sites are kept apart here (the specification calls the first two
  \<open>MalformedTimeError\<close> and the third \<open>MalformedDateError\<close>).
  \<open>OverflowError\<close> is what \<open>time(h, m, s)\<close> raises for a number too large for it.
  \<open>StoreError\<close> stands for any exception raised by a call of the Supabase client.
\<close>

datatype error =
    ValueError_int
  | ValueError_time
  | ValueError_date
  | OverflowError
  | TypeError
  | KeyError
  | StoreError

section \<open>Dates and times\<close>

text \<open>
  A naive \<open>datetime\<close> is the tuple (year, month, day, hour, minute, second, microsecond);
  Python compares two naive datetimes field by field, which is the lexicographic order of
  the tuple.
\<close>

type_synonym pydate = "int \<times> int \<times> int"
type_synonym pytime = "int \<times> int \<times> int \<times> int"
type_synonym pydatetime = "int \<times> int \<times> int \<times> int \<times> int \<times> int \<times> int"

definition combine :: "pydate \<Rightarrow> pytime \<Rightarrow> pydatetime" where
  "combine d t = (case d of (y, mo, dd) \<Rightarrow> case t of (h, mi, s, us) \<Rightarrow> (y, mo, dd, h, mi, s, us))"

text \<open>
  \<open>time(hour, minute, second)\<close>: the arguments are first converted to C integers,
  which raises \<open>OverflowError\<close> for a number that does not fit in 32 bits; the
  constructor then checks each field's range.
\<close>

definition fits_c_int :: "int \<Rightarrow> bool" where
  "fits_c_int i = (- (2 ^ 31) \<le> i \<and> i < 2 ^ 31)"

definition time :: "int \<Rightarrow> int \<Rightarrow> int \<Rightarrow> error + pytime" where
  "time h mi s =
     (if \<not> (fits_c_int h \<and> fits_c_int mi \<and> fits_c_int s) then Inl OverflowError
      else if 0 \<le> h \<and> h < 24 \<and> 0 \<le> mi \<and> mi < 60 \<and> 0 \<le> s \<and> s < 60
      then Inr (h, mi, s, 0) else Inl ValueError_time)"

text \<open>\<open>datetime.min.time()\<close> is midnight.\<close>

definition min_time :: pytime where
  "min_time = (0, 0, 0, 0)"

subsection \<open>Strings and characters\<close>

text \<open>
  A Python string is a sequence of Unicode code points, and two strings compare by their
  code points. \<open>str\<close> gives the string of a literal of the code.
\<close>

type_synonym pystr = "nat list"

abbreviation ord :: "char \<Rightarrow> nat" where
  "ord \<equiv> of_char"

definition str :: "string \<Rightarrow> pystr" where
  "str s = map ord s"

text \<open>
  The Unicode database of the interpreter gives the characters of category Nd their
  decimal value. Which characters beyond ASCII these are depends on the version of the
  database, so the table is an argument of everything that reads a number: \<open>db c\<close> is
  the decimal value of the code point \<open>c\<close>, when it has one.
\<close>

type_synonym unicode_db = "nat \<Rightarrow> nat option"

text \<open>The classes \<open>[0-9]\<close> and \<open>[lo-hi]\<close> of a regular expression: ASCII digits.\<close>

definition is_digit :: "nat \<Rightarrow> bool" where
  "is_digit c = (48 \<le> c \<and> c \<le> 57)"

definition in_range :: "nat \<Rightarrow> nat \<Rightarrow> nat \<Rightarrow> bool" where
  "in_range c lo hi = (48 + lo \<le> c \<and> c \<le> 48 + hi)"

text \<open>
  The decimal value of a character: an ASCII digit, or a character beyond ASCII that the
  database knows as a decimal digit. This is what \<open>\d\<close> matches in the regular
  expression of a string pattern, and what \<open>int()\<close> reads as a digit.
\<close>

definition decimal :: "unicode_db \<Rightarrow> nat \<Rightarrow> nat option" where
  "decimal db c =
     (if is_digit c then Some (c - 48)
      else if 128 \<le> c then (case db c of None \<Rightarrow> None | Some d \<Rightarrow> if d < 10 then Some d else None)
      else None)"

definition digit_val :: "unicode_db \<Rightarrow> nat \<Rightarrow> int" where
  "digit_val db c = (case decimal db c of None \<Rightarrow> 0 | Some d \<Rightarrow> int d)"

text \<open>
  White space: of the ASCII characters, the six that C's \<open>isspace\<close> accepts; of the
  others, the ones Python counts as white space.
\<close>

definition is_space :: "nat \<Rightarrow> bool" where
  "is_space c = ((9 \<le> c \<and> c \<le> 13) \<or> c = 32)"

definition unicode_space :: "nat \<Rightarrow> bool" where
  "unicode_space c =
     (c = 0x85 \<or> c = 0xA0 \<or> c = 0x1680 \<or> (0x2000 \<le> c \<and> c \<le> 0x200A)
      \<or> c = 0x2028 \<or> c = 0x2029 \<or> c = 0x202F \<or> c = 0x205F \<or> c = 0x3000)"

subsection \<open>\<open>int(s)\<close> on a string\<close>

text \<open>
  \<open>int(s)\<close> first rewrites the string to ASCII: a code point below 127 stays, a white
  space beyond becomes a blank, a decimal digit beyond becomes the ASCII digit of its
  value, and at any other character the string ends with a question mark. So the
  characters 0x1C to 0x1F, which \<open>str.isspace\<close> accepts, are no white space here.
\<close>

fun to_ascii :: "unicode_db \<Rightarrow> pystr \<Rightarrow> pystr" where
  "to_ascii db [] = []"
| "to_ascii db (c # cs) =
     (if c < 127 then c # to_ascii db cs
      else if unicode_space c then 32 # to_ascii db cs
      else (case decimal db c of
              None \<Rightarrow> [ord CHR ''?'']
            | Some d \<Rightarrow> (48 + d) # to_ascii db cs))"

text \<open>
  The ASCII text is then read: white space on both sides is skipped, the sign is
  optional, and single underscores may stand between two digits. \<open>after_digit\<close> reads on
  behind a digit and returns the value, the number of digits and the text that is left.
\<close>

fun after_digit :: "int \<Rightarrow> nat \<Rightarrow> pystr \<Rightarrow> (int \<times> nat \<times> pystr) option" where
  "after_digit acc n [] = Some (acc, n, [])"
| "after_digit acc n [c] =
     (if is_digit c then Some (10 * acc + (int c - 48), Suc n, [])
      else if c = ord CHR ''_'' then None
      else Some (acc, n, [c]))"
| "after_digit acc n (c # d # ds) =
     (if is_digit c then after_digit (10 * acc + (int c - 48)) (Suc n) (d # ds)
      else if c = ord CHR ''_'' then
        (if is_digit d then after_digit (10 * acc + (int d - 48)) (Suc n) ds else None)
      else Some (acc, n, c # d # ds))"

text \<open>
  A text of more than 4300 digits is refused (the default of
  \<open>sys.get_int_max_str_digits()\<close>).
\<close>

definition int_max_str_digits :: nat where
  "int_max_str_digits = 4300"

definition py_int :: "unicode_db \<Rightarrow> pystr \<Rightarrow> error + int" where
  "py_int db s =
     (let s1 = dropWhile is_space (to_ascii db s);
          neg = (case s1 of [] \<Rightarrow> False | c # _ \<Rightarrow> c = ord CHR ''-'');
          s2 = (case s1 of
                  [] \<Rightarrow> []
                | c # cs \<Rightarrow> if c = ord CHR ''-'' \<or> c = ord CHR ''+'' then cs else s1)
      in case s2 of
           [] \<Rightarrow> Inl ValueError_int
         | c # cs \<Rightarrow>
             if is_digit c then
               (case after_digit (int c - 48) 1 cs of
                  None \<Rightarrow> Inl ValueError_int
                | Some (v, n, rest) \<Rightarrow>
                    if n \<le> int_max_str_digits \<and> list_all is_space rest
                    then Inr (if neg then - v else v)
                    else Inl ValueError_int)
             else Inl ValueError_int)"

subsection \<open>\<open>str.split(':')\<close>\<close>

fun split_colon :: "pystr \<Rightarrow> pystr list" where
  "split_colon [] = [[]]"
| "split_colon (c # cs) =
     (if c = ord CHR '':'' then [] # split_colon cs
      else (case split_colon cs of [] \<Rightarrow> [[c]] | p # ps \<Rightarrow> (c # p) # ps))"

subsection \<open>\<open>datetime.strptime(s, '%Y-%m-%d').date()\<close>\<close>

text \<open>
  \<open>strptime\<close> matches the string against the regular expression of the format:
  \<open>%Y\<close> is \<open>\d\d\d\d\<close>, \<open>%m\<close> is \<open>1[0-2]|0[1-9]|[1-9]\<close>, \<open>%d\<close> is
  \<open>3[0-1]|[1-2]\d|0[1-9]|[1-9]| [1-9]\<close>; the alternatives are tried in this order, the
  whole string has to be consumed, each group is read by \<open>int()\<close>, and the \<open>date\<close>
  constructor then checks the year (at least 1) and the day against the length of the
  month.
\<close>

fun month_re :: "pystr \<Rightarrow> (int \<times> pystr) option" where
  "month_re [] = None"
| "month_re [a] = (if in_range a 1 9 then Some (int a - 48, []) else None)"
| "month_re (a # b # r) =
     (if a = ord CHR ''1'' \<and> in_range b 0 2 then Some (10 + (int b - 48), r)
      else if a = ord CHR ''0'' \<and> in_range b 1 9 then Some (int b - 48, r)
      else if in_range a 1 9 then Some (int a - 48, b # r)
      else None)"

fun day_re :: "unicode_db \<Rightarrow> pystr \<Rightarrow> (int \<times> pystr) option" where
  "day_re db [] = None"
| "day_re db [a] = (if in_range a 1 9 then Some (int a - 48, []) else None)"
| "day_re db (a # b # r) =
     (if a = ord CHR ''3'' \<and> in_range b 0 1 then Some (30 + (int b - 48), r)
      else if in_range a 1 2 \<and> decimal db b \<noteq> None
        then Some (10 * (int a - 48) + digit_val db b, r)
      else if a = ord CHR ''0'' \<and> in_range b 1 9 then Some (int b - 48, r)
      else if in_range a 1 9 then Some (int a - 48, b # r)
      else if a = ord CHR '' '' \<and> in_range b 1 9 then Some (int b - 48, r)
      else None)"

definition is_leap :: "int \<Rightarrow> bool" where
  "is_leap y = (y mod 4 = 0 \<and> (y mod 100 \<noteq> 0 \<or> y mod 400 = 0))"

definition days_in_month :: "int \<Rightarrow> int \<Rightarrow> int" where
  "days_in_month y m =
     (if m = 2 then (if is_leap y then 29 else 28)
      else if m = 4 \<or> m = 6 \<or> m = 9 \<or> m = 11 then 30 else 31)"

text \<open>\<open>date(year, month, day)\<close>, as called by \<open>strptime\<close> on the matched fields.\<close>

definition date :: "int \<Rightarrow> int \<Rightarrow> int \<Rightarrow> error + pydate" where
  "date y m d =
     (if 1 \<le> y \<and> y \<le> 9999 \<and> 1 \<le> m \<and> m \<le> 12 \<and> 1 \<le> d \<and> d \<le> days_in_month y m
      then Inr (y, m, d) else Inl ValueError_date)"

definition strptime_date :: "unicode_db \<Rightarrow> pystr \<Rightarrow> error + pydate" where
  "strptime_date db s =
     (case s of
        y1 # y2 # y3 # y4 # dash # rest \<Rightarrow>
          if decimal db y1 \<noteq> None \<and> decimal db y2 \<noteq> None \<and> decimal db y3 \<noteq> None
             \<and> decimal db y4 \<noteq> None \<and> dash = ord CHR ''-'' then
            (case month_re rest of
               None \<Rightarrow> Inl ValueError_date
             | Some (m, rest1) \<Rightarrow>
                 (case rest1 of
                    [] \<Rightarrow> Inl ValueError_date
                  | dash2 # rest2 \<Rightarrow>
                      if dash2 = ord CHR ''-'' then
                        (case day_re db rest2 of
                           None \<Rightarrow> Inl ValueError_date
                         | Some (d, rest3) \<Rightarrow>
                             if rest3 = [] then
                               date (1000 * digit_val db y1 + 100 * digit_val db y2
                                       + 10 * digit_val db y3 + digit_val db y4) m d
                             else Inl ValueError_date)
                      else Inl ValueError_date))
          else Inl ValueError_date
      | _ \<Rightarrow> Inl ValueError_date)"

subsection \<open>\<open>datetime.strptime(s, '%H:%M:%S').time()\<close>\<close>

text \<open>
  \<open>%H\<close> is \<open>2[0-3]|[0-1]\d|\d\<close>, \<open>%M\<close> is \<open>[0-5]\d|\d\<close> and \<open>%S\<close> is
  \<open>6[0-1]|[0-5]\d|\d\<close>. A second of 60 or 61 passes the expression and is then
  refused by the \<open>datetime\<close> constructor.
\<close>

fun hour_re :: "unicode_db \<Rightarrow> pystr \<Rightarrow> (int \<times> pystr) option" where
  "hour_re db [] = None"
| "hour_re db [a] = (if decimal db a \<noteq> None then Some (digit_val db a, []) else None)"
| "hour_re db (a # b # r) =
     (if a = ord CHR ''2'' \<and> in_range b 0 3 then Some (20 + (int b - 48), r)
      else if in_range a 0 1 \<and> decimal db b \<noteq> None
        then Some (10 * (int a - 48) + digit_val db b, r)
      else if decimal db a \<noteq> None then Some (digit_val db a, b # r)
      else None)"

fun minute_re :: "unicode_db \<Rightarrow> pystr \<Rightarrow> (int \<times> pystr) option" where
  "minute_re db [] = None"
| "minute_re db [a] = (if decimal db a \<noteq> None then Some (digit_val db a, []) else None)"
| "minute_re db (a # b # r) =
     (if in_range a 0 5 \<and> decimal db b \<noteq> None
        then Some (10 * (int a - 48) + digit_val db b, r)
      else if decimal db a \<noteq> None then Some (digit_val db a, b # r)
      else None)"

fun second_re :: "unicode_db \<Rightarrow> pystr \<Rightarrow> (int \<times> pystr) option" where
  "second_re db [] = None"
| "second_re db [a] = (if decimal db a \<noteq> None then Some (digit_val db a, []) else None)"
| "second_re db (a # b # r) =
     (if a = ord CHR ''6'' \<and> in_range b 0 1 then Some (60 + (int b - 48), r)
      else if in_range a 0 5 \<and> decimal db b \<noteq> None
        then Some (10 * (int a - 48) + digit_val db b, r)
      else if decimal db a \<noteq> None then Some (digit_val db a, b # r)
      else None)"

definition strptime_time :: "unicode_db \<Rightarrow> pystr \<Rightarrow> error + pytime" where
  "strptime_time db s =
     (case hour_re db s of
        None \<Rightarrow> Inl ValueError_time
      | Some (h, r1) \<Rightarrow>
          (case r1 of
             [] \<Rightarrow> Inl ValueError_time
           | c1 # r2 \<Rightarrow>
               if c1 = ord CHR '':'' then
                 (case minute_re db r2 of
                    None \<Rightarrow> Inl ValueError_time
                  | Some (mi, r3) \<Rightarrow>
                      (case r3 of
                         [] \<Rightarrow> Inl ValueError_time
                       | c2 # r4 \<Rightarrow>
                           if c2 = ord CHR '':'' then
                             (case second_re db r4 of
                                None \<Rightarrow> Inl ValueError_time
                              | Some (sec, r5) \<Rightarrow>
                                  if r5 = [] then time h mi sec else Inl ValueError_time)
                           else Inl ValueError_time))
               else Inl ValueError_time))"

section \<open>The persisted rows and the Supabase client\<close>

text \<open>
  A row of \<open>destinations\<close>: a nullable column is an option, \<open>None\<close> being JSON null.
  Every query on this table selects the columns it later reads, so no key is missing.
\<close>

record destination =
  dest_id :: int
  user_id :: "int option"
  place_name :: pystr
  scheduled_date :: "pystr option"
  scheduled_time :: "pystr option"
  status :: "pystr option"

record participant =
  event_id :: int
  participant_user_id :: int
  participation_type :: pystr

text \<open>
  A row of \<open>event_participants\<close> as \<open>get_destinations\<close> receives it: the column
  \<open>participation_type\<close> is present only when the query selected it (\<open>None\<close>: the key
  is missing from the row).
\<close>

record participant_row =
  row_event_id :: int
  row_participation_type :: "pystr option"

record user_row =
  name :: "pystr option"
  email :: "pystr option"

record user =
  uid :: int
  user_name :: "pystr option"
  user_email :: "pystr option"

record store =
  destinations :: "destination list"
  event_participants :: "participant list"
  users :: "user list"

text \<open>
  The calls the code makes on the client, over a state \<open>'s\<close>; each may raise. A read
  leaves the state as it is; a write returns the rows it touched and the new state.
\<close>

record 's client =
  destinations_select_active :: "'s \<Rightarrow> error + destination list"
  destinations_select_id :: "int \<Rightarrow> 's \<Rightarrow> error + destination list"
  destinations_select_user :: "int \<Rightarrow> 's \<Rightarrow> error + destination list"
  destinations_select_in :: "int list \<Rightarrow> 's \<Rightarrow> error + destination list"
  destinations_update_status :: "int \<Rightarrow> pystr \<Rightarrow> 's \<Rightarrow> error + destination list \<times> 's"
  participants_select_user :: "int \<Rightarrow> 's \<Rightarrow> error + participant_row list"
  participants_select :: "int \<Rightarrow> int \<Rightarrow> 's \<Rightarrow> error + participant list"
  participants_update :: "int \<Rightarrow> int \<Rightarrow> pystr \<Rightarrow> 's \<Rightarrow> error + participant list \<times> 's"
  participants_insert :: "participant \<Rightarrow> 's \<Rightarrow> error + participant list \<times> 's"
  users_select :: "int \<Rightarrow> 's \<Rightarrow> error + user_row list"

text \<open>
  The client over a store held in memory, on which no call raises. The query of
  \<open>get_destinations\<close> on \<open>event_participants\<close> is \<open>select('event_id')\<close>: its rows
  hold that one column.
\<close>

definition set_status :: "int \<Rightarrow> pystr \<Rightarrow> destination \<Rightarrow> destination" where
  "set_status i st d = (if dest_id d = i then d\<lparr>status := Some st\<rparr> else d)"

definition set_participation ::
    "int \<Rightarrow> int \<Rightarrow> pystr \<Rightarrow> participant \<Rightarrow> participant" where
  "set_participation e u pt p =
     (if event_id p = e \<and> participant_user_id p = u then p\<lparr>participation_type := pt\<rparr> else p)"

definition supabase_client :: "store client" where
  "supabase_client =
     \<lparr> destinations_select_active =
         (\<lambda>s. Inr (filter (\<lambda>d. status d = Some (str ''active'')) (destinations s))),
       destinations_select_id =
         (\<lambda>i s. Inr (filter (\<lambda>d. dest_id d = i) (destinations s))),
       destinations_select_user =
         (\<lambda>u s. Inr (filter (\<lambda>d. user_id d = Some u) (destinations s))),
       destinations_select_in =
         (\<lambda>ids s. Inr (filter (\<lambda>d. dest_id d \<in> set ids) (destinations s))),
       destinations_update_status =
         (\<lambda>i st s.
            Inr (filter (\<lambda>d. dest_id d = i) (map (set_status i st) (destinations s)),
                 s\<lparr>destinations := map (set_status i st) (destinations s)\<rparr>)),
       participants_select_user =
         (\<lambda>u s. Inr (map (\<lambda>p. \<lparr>row_event_id = event_id p, row_participation_type = None\<rparr>)
                       (filter (\<lambda>p. participant_user_id p = u) (event_participants s)))),
       participants_select =
         (\<lambda>e u s. Inr (filter (\<lambda>p. event_id p = e \<and> participant_user_id p = u)
                         (event_participants s))),
       participants_update =
         (\<lambda>e u pt s.
            Inr (filter (\<lambda>p. event_id p = e \<and> participant_user_id p = u)
                   (map (set_participation e u pt) (event_participants s)),
                 s\<lparr>event_participants := map (set_participation e u pt) (event_participants s)\<rparr>)),
       participants_insert =
         (\<lambda>p s. Inr ([p], s\<lparr>event_participants := event_participants s @ [p]\<rparr>)),
       users_select =
         (\<lambda>i s. Inr (map (\<lambda>u. \<lparr>name = user_name u, email = user_email u\<rparr>)
                       (filter (\<lambda>u. uid u = i) (users s)))) \<rparr>"

section \<open>The job \<open>EventStatusUpdater\<close>\<close>

text \<open>
  The dictionary \<open>execute\<close> returns: \<open>success\<close>, the two counts under \<open>data\<close>
  (\<open>None\<close>: the key is missing) and the exception of a failed run.
\<close>

record job_result =
  success :: bool
  checked :: "nat option"
  updated :: "nat option"
  job_error :: "error option"

text \<open>The time string is split and converted, then combined with the parsed date.\<close>

definition timed_datetime :: "unicode_db \<Rightarrow> pystr \<Rightarrow> pystr \<Rightarrow> error + pydatetime" where
  "timed_datetime db sd st =
     (let time_parts = split_colon st in
      case py_int db (hd time_parts) of
        Inl e \<Rightarrow> Inl e
      | Inr hour \<Rightarrow>
          (case (if length time_parts > 1 then py_int db (time_parts ! 1) else Inr 0) of
             Inl e \<Rightarrow> Inl e
           | Inr minute \<Rightarrow>
               (case (if length time_parts > 2 then py_int db (time_parts ! 2) else Inr 0) of
                  Inl e \<Rightarrow> Inl e
                | Inr second \<Rightarrow>
                    (case strptime_date db sd of
                       Inl e \<Rightarrow> Inl e
                     | Inr d \<Rightarrow>
                         (case time hour minute second of
                            Inl e \<Rightarrow> Inl e
                          | Inr t \<Rightarrow> Inr (combine d t))))))"

text \<open>An all-day event is compared at the end of its day.\<close>

definition all_day_datetime :: "unicode_db \<Rightarrow> pystr \<Rightarrow> error + pydatetime" where
  "all_day_datetime db sd =
     (case strptime_date db sd of
        Inl e \<Rightarrow> Inl e
      | Inr event_date \<Rightarrow>
          (case time 23 59 59 of Inl e \<Rightarrow> Inl e | Inr t \<Rightarrow> Inr (combine event_date t)))"

text \<open>\<open>if scheduled_time:\<close> holds for a string that is neither null nor empty.\<close>

definition event_datetime ::
    "unicode_db \<Rightarrow> pystr \<Rightarrow> pystr option \<Rightarrow> error + pydatetime" where
  "event_datetime db sd scheduled_time_opt =
     (case scheduled_time_opt of
        None \<Rightarrow> all_day_datetime db sd
      | Some st \<Rightarrow> if st = [] then all_day_datetime db sd else timed_datetime db sd st)"

text \<open>
  One round of the loop over the fetched events: the state and the counter after it,
  or the exception that leaves the loop.
\<close>

definition process_event ::
    "unicode_db \<Rightarrow> 's client \<Rightarrow> pydatetime \<Rightarrow> destination \<Rightarrow> 's \<Rightarrow> nat
       \<Rightarrow> 's \<times> (error + nat)" where
  "process_event db c now event s updated_count =
     (if status event = Some (str ''cancelled'') then (s, Inr updated_count)
      else
        (case scheduled_date event of
           None \<Rightarrow> (s, Inr updated_count)
         | Some sd \<Rightarrow>
             if sd = [] then (s, Inr updated_count)
             else
               (case event_datetime db sd (scheduled_time event) of
                  Inl e \<Rightarrow> (s, Inl e)
                | Inr dt \<Rightarrow>
                    if now > dt then
                      (case destinations_update_status c (dest_id event) (str ''past'') s of
                         Inl e \<Rightarrow> (s, Inl e)
                       | Inr (rows, s') \<Rightarrow>
                           (s', Inr (if rows \<noteq> [] then updated_count + 1 else updated_count)))
                    else (s, Inr updated_count))))"

fun execute_loop ::
    "unicode_db \<Rightarrow> 's client \<Rightarrow> pydatetime \<Rightarrow> destination list \<Rightarrow> 's \<Rightarrow> nat
       \<Rightarrow> 's \<times> (error + nat)" where
  "execute_loop db c now [] s updated_count = (s, Inr updated_count)"
| "execute_loop db c now (event # events) s updated_count =
     (case process_event db c now event s updated_count of
        (s', Inl e) \<Rightarrow> (s', Inl e)
      | (s', Inr n) \<Rightarrow> execute_loop db c now events s' n)"

definition failed :: "error option \<Rightarrow> job_result" where
  "failed e = \<lparr>success = False, checked = None, updated = None, job_error = e\<rparr>"

definition execute ::
    "unicode_db \<Rightarrow> 's client option \<Rightarrow> pydatetime \<Rightarrow> 's \<Rightarrow> job_result \<times> 's" where
  "execute db supabase now s =
     (case supabase of
        None \<Rightarrow> (failed None, s)
      | Some c \<Rightarrow>
          (case destinations_select_active c s of
             Inl e \<Rightarrow> (failed (Some e), s)
           | Inr events \<Rightarrow>
               if events = [] then
                 (\<lparr>success = True, checked = None, updated = Some 0, job_error = None\<rparr>, s)
               else
                 (case execute_loop db c now events s 0 of
                    (s', Inl e) \<Rightarrow> (failed (Some e), s')
                  | (s', Inr n) \<Rightarrow>
                      (\<lparr>success = True, checked = Some (length events), updated = Some n,
                        job_error = None\<rparr>, s'))))"

section \<open>The routes of \<open>app.py\<close>\<close>

text \<open>
  What a route returns: the JSON payload, an error message with its HTTP status, or the
  status 500 of the handler's \<open>except\<close> clause with the exception it caught.
\<close>

datatype 'a response = Json 'a | Error string nat | Exception error

subsection \<open>\<open>cancel_destination\<close>\<close>

definition scheduled_datetime :: "unicode_db \<Rightarrow> destination \<Rightarrow> error + pydatetime" where
  "scheduled_datetime db destination =
     (case scheduled_date destination of
        None \<Rightarrow> Inl TypeError
      | Some sd \<Rightarrow>
          (case strptime_date db sd of
             Inl e \<Rightarrow> Inl e
           | Inr d \<Rightarrow>
               (case scheduled_time destination of
                  None \<Rightarrow> Inr (combine d min_time)
                | Some st \<Rightarrow>
                    if st = [] then Inr (combine d min_time)
                    else (case strptime_time db st of
                            Inl e \<Rightarrow> Inl e
                          | Inr t \<Rightarrow> Inr (combine d t)))))"

definition cancel_destination ::
    "unicode_db \<Rightarrow> 's client option \<Rightarrow> int \<Rightarrow> pydatetime \<Rightarrow> int \<Rightarrow> 's
       \<Rightarrow> destination list response \<times> 's" where
  "cancel_destination db supabase session_user_id now destination_id s =
     (case supabase of
        None \<Rightarrow> (Error ''Supabase not configured'' 500, s)
      | Some c \<Rightarrow>
          (case destinations_select_id c destination_id s of
             Inl e \<Rightarrow> (Exception e, s)
           | Inr [] \<Rightarrow> (Error ''Destination not found'' 404, s)
           | Inr (destination # _) \<Rightarrow>
               if user_id destination \<noteq> Some session_user_id then (Error ''Unauthorized'' 403, s)
               else if status destination = Some (str ''cancelled'') then
                 (Error ''Destination is already cancelled'' 400, s)
               else
                 (case scheduled_datetime db destination of
                    Inl e \<Rightarrow> (Exception e, s)
                  | Inr dt \<Rightarrow>
                      if dt < now then (Error ''Cannot cancel past events'' 400, s)
                      else
                        (case destinations_update_status c destination_id (str ''cancelled'') s of
                           Inl e \<Rightarrow> (Exception e, s)
                         | Inr (rows, s') \<Rightarrow> (Json rows, s')))))"

subsection \<open>\<open>participate_event\<close>\<close>

text \<open>The argument \<open>ptype\<close> is \<open>data.get('type')\<close> of the request body.\<close>

definition participate_event ::
    "'s client option \<Rightarrow> int \<Rightarrow> pystr option \<Rightarrow> int \<Rightarrow> 's
       \<Rightarrow> participant option response \<times> 's" where
  "participate_event supabase session_user_id ptype ev_id s =
     (case supabase of
        None \<Rightarrow> (Error ''Supabase not configured'' 500, s)
      | Some c \<Rightarrow>
          (case ptype of
             None \<Rightarrow> (Error ''Invalid participation type'' 400, s)
           | Some pt \<Rightarrow>
               if pt \<notin> set [str ''joined'', str ''interested''] then
                 (Error ''Invalid participation type'' 400, s)
               else
                 (case destinations_select_id c ev_id s of
                    Inl e \<Rightarrow> (Exception e, s)
                  | Inr [] \<Rightarrow> (Error ''Event not found'' 404, s)
                  | Inr (_ # _) \<Rightarrow>
                      (case participants_select c ev_id session_user_id s of
                         Inl e \<Rightarrow> (Exception e, s)
                       | Inr existing \<Rightarrow>
                           (case (if existing \<noteq> []
                                  then participants_update c ev_id session_user_id pt s
                                  else participants_insert c
                                         \<lparr>event_id = ev_id, participant_user_id = session_user_id,
                                           participation_type = pt\<rparr> s) of
                              Inl e \<Rightarrow> (Exception e, s)
                            | Inr (rows, s') \<Rightarrow>
                                (Json (case rows of [] \<Rightarrow> None | r # _ \<Rightarrow> Some r), s'))))))"

subsection \<open>\<open>get_destinations\<close>\<close>

text \<open>
  An entry of the returned list: the row of the destination with the keys the route
  adds. \<open>participation_type\<close> and \<open>organizer_name\<close> are set on some entries only
  (\<open>None\<close>: the key is missing; \<open>Some None\<close>: the key holds null).
\<close>

record view =
  dest :: destination
  is_organizer :: bool
  view_participation_type :: "pystr option option"
  organizer_name :: "pystr option option"

text \<open>
  \<open>all_destinations\<close> is a dictionary keyed by the id. A Python dictionary keeps its
  keys in the order of their first insertion, which \<open>AList.update\<close> does on an
  association list.
\<close>

definition add_created :: "destination list \<Rightarrow> (int \<times> view) list \<Rightarrow> (int \<times> view) list" where
  "add_created created all_destinations =
     foldl (\<lambda>al d. AList.update (dest_id d)
                      \<lparr>dest = d, is_organizer = True, view_participation_type = None,
                        organizer_name = None\<rparr> al)
           all_destinations created"

text \<open>
  The second loop looks the participation up among the rows of the first query and
  reads its \<open>participation_type\<close>, which raises \<open>KeyError\<close> on a row without that key.
\<close>

fun add_participant ::
    "participant_row list \<Rightarrow> destination list \<Rightarrow> (int \<times> view) list \<Rightarrow> error + (int \<times> view) list" where
  "add_participant participants [] all_destinations = Inr all_destinations"
| "add_participant participants (d # ds) all_destinations =
     (if map_of all_destinations (dest_id d) \<noteq> None then
        add_participant participants ds all_destinations
      else
        (case find (\<lambda>p. row_event_id p = dest_id d) participants of
           None \<Rightarrow>
             add_participant participants ds
               (AList.update (dest_id d)
                  \<lparr>dest = d, is_organizer = False, view_participation_type = Some None,
                    organizer_name = None\<rparr> all_destinations)
         | Some part \<Rightarrow>
             (case row_participation_type part of
                None \<Rightarrow> Inl KeyError
              | Some pt \<Rightarrow>
                  add_participant participants ds
                    (AList.update (dest_id d)
                       \<lparr>dest = d, is_organizer = False, view_participation_type = Some (Some pt),
                         organizer_name = None\<rparr> all_destinations))))"

text \<open>\<open>a or b\<close> on two nullable strings.\<close>

definition py_or :: "pystr option \<Rightarrow> pystr option \<Rightarrow> pystr option" where
  "py_or a b = (case a of None \<Rightarrow> b | Some x \<Rightarrow> if x = [] then b else Some x)"

text \<open>The owner is looked up when \<open>user_id\<close> is neither null nor 0.\<close>

definition with_organizer_name :: "'s client \<Rightarrow> 's \<Rightarrow> view \<Rightarrow> error + view" where
  "with_organizer_name c s v =
     (case user_id (dest v) of
        None \<Rightarrow> Inr v
      | Some u \<Rightarrow>
          if u = 0 then Inr v
          else
            (case users_select c u s of
               Inl e \<Rightarrow> Inl e
             | Inr [] \<Rightarrow> Inr v
             | Inr (organizer # _) \<Rightarrow>
                 Inr (v\<lparr>organizer_name := Some (py_or (name organizer) (email organizer))\<rparr>)))"

fun add_organizer_names ::
    "'s client \<Rightarrow> 's \<Rightarrow> (int \<times> view) list \<Rightarrow> error + (int \<times> view) list" where
  "add_organizer_names c s [] = Inr []"
| "add_organizer_names c s ((k, v) # rest) =
     (case with_organizer_name c s v of
        Inl e \<Rightarrow> Inl e
      | Inr v' \<Rightarrow>
          (case add_organizer_names c s rest of
             Inl e \<Rightarrow> Inl e
           | Inr rest' \<Rightarrow> Inr ((k, v') # rest')))"

text \<open>
  The sort key is the pair \<open>(scheduled_date, scheduled_time)\<close>; both keys are in every
  row, so \<open>get\<close> never falls back on its default \<open>''\<close> and returns null for a null
  column. Python compares two tuples at the first position where they differ, and
  \<open><\<close> between null and a string raises \<open>TypeError\<close>.
\<close>

type_synonym sort_key = "pystr option \<times> pystr option"

definition key_of :: "view \<Rightarrow> sort_key" where
  "key_of x = (scheduled_date (dest x), scheduled_time (dest x))"

fun value_lt :: "pystr option \<Rightarrow> pystr option \<Rightarrow> error + bool" where
  "value_lt (Some a) (Some b) = Inr (a < b)"
| "value_lt _ _ = Inl TypeError"

definition key_lt :: "sort_key \<Rightarrow> sort_key \<Rightarrow> error + bool" where
  "key_lt k1 k2 =
     (if fst k1 \<noteq> fst k2 then value_lt (fst k1) (fst k2)
      else if snd k1 \<noteq> snd k2 then value_lt (snd k1) (snd k2)
      else Inr False)"

text \<open>
  \<open>list.sort\<close> is a stable comparison sort and passes on the exception of a comparison.
  A comparison sort cannot order a list without comparing the keys of two entries that
  end up next to each other, so the sort raises exactly when two keys of the list cannot
  be compared; otherwise its result is the stable sort by the key, where null is below
  every string.
\<close>

fun comparable_keys :: "sort_key list \<Rightarrow> bool" where
  "comparable_keys [] = True"
| "comparable_keys (k # ks) = (list_all (\<lambda>k'. \<not> isl (key_lt k' k)) ks \<and> comparable_keys ks)"

definition sort_views :: "view list \<Rightarrow> error + view list" where
  "sort_views result =
     (if comparable_keys (map key_of result) then Inr (sort_key key_of result)
      else Inl TypeError)"

text \<open>
  The body of the \<open>try\<close> block, in two parts: the queries and the three loops that
  build \<open>all_destinations\<close>, then the conversion to a list and its sort.
\<close>

definition collect_destinations ::
    "'s client \<Rightarrow> int \<Rightarrow> 's \<Rightarrow> error + (int \<times> view) list" where
  "collect_destinations c session_user_id s =
     (case destinations_select_user c session_user_id s of
        Inl e \<Rightarrow> Inl e
      | Inr created \<Rightarrow>
          (case participants_select_user c session_user_id s of
             Inl e \<Rightarrow> Inl e
           | Inr participants \<Rightarrow>
               (case (if map row_event_id participants \<noteq> []
                      then destinations_select_in c (map row_event_id participants) s
                      else Inr []) of
                  Inl e \<Rightarrow> Inl e
                | Inr participant_destinations \<Rightarrow>
                    (case add_participant participants participant_destinations
                            (add_created created []) of
                       Inl e \<Rightarrow> Inl e
                     | Inr all_destinations \<Rightarrow> add_organizer_names c s all_destinations))))"

definition get_destinations_try :: "'s client \<Rightarrow> int \<Rightarrow> 's \<Rightarrow> error + view list" where
  "get_destinations_try c session_user_id s =
     (case collect_destinations c session_user_id s of
        Inl e \<Rightarrow> Inl e
      | Inr all_destinations \<Rightarrow> sort_views (map snd all_destinations))"

definition get_destinations :: "'s client option \<Rightarrow> int \<Rightarrow> 's \<Rightarrow> view list" where
  "get_destinations supabase session_user_id s =
     (case supabase of
        None \<Rightarrow> []
      | Some c \<Rightarrow>
          (case get_destinations_try c session_user_id s of
             Inl e \<Rightarrow> []
           | Inr result \<Rightarrow> result))"

section \<open>Vocabulary of the proofs about the job\<close>

text \<open>
  What the round of an event comes to before it touches the store: it raises, it reaches
  the update (\<open>True\<close>) or it moves on to the next event (\<open>False\<close>).
\<close>

definition round_outcome :: "unicode_db \<Rightarrow> pydatetime \<Rightarrow> destination \<Rightarrow> error + bool" where
  "round_outcome db now event =
     (if status event = Some (str ''cancelled'') then Inr False
      else
        (case scheduled_date event of
           None \<Rightarrow> Inr False
         | Some sd \<Rightarrow>
             if sd = [] then Inr False
             else (case event_datetime db sd (scheduled_time event) of
                     Inl e \<Rightarrow> Inl e
                   | Inr dt \<Rightarrow> Inr (now > dt))))"

definition mark_past :: "int set \<Rightarrow> store \<Rightarrow> store" where
  "mark_past U s =
     s\<lparr>destinations :=
         map (\<lambda>d. if dest_id d \<in> U then d\<lparr>status := Some (str ''past'')\<rparr> else d) (destinations s)\<rparr>"

definition active :: "store \<Rightarrow> destination list" where
  "active s = filter (\<lambda>d. status d = Some (str ''active'')) (destinations s)"

text \<open>
  An event is \<open>good\<close> when its round does not raise; \<open>due_ids\<close> are the ids of the
  due events before the first event that is not good.
\<close>

definition good :: "unicode_db \<Rightarrow> pydatetime \<Rightarrow> destination \<Rightarrow> bool" where
  "good db now e = (\<not> isl (round_outcome db now e))"

definition due_ids :: "unicode_db \<Rightarrow> pydatetime \<Rightarrow> destination list \<Rightarrow> int set" where
  "due_ids db now evs =
     dest_id ` {e \<in> set (takeWhile (good db now) evs). round_outcome db now e = Inr True}"

section \<open>Sequences of participation requests\<close>

text \<open>
  The key of a participation, and the store after a list of requests (user, type, event)
  sent to \<open>participate_event\<close> one after the other.
\<close>

definition pair_of :: "participant \<Rightarrow> int \<times> int" where
  "pair_of p = (event_id p, participant_user_id p)"

fun participate_all :: "(int \<times> pystr option \<times> int) list \<Rightarrow> store \<Rightarrow> store" where
  "participate_all [] s = s"
| "participate_all ((u, ptype, e) # requests) s =
     participate_all requests (snd (participate_event (Some supabase_client) u ptype e s))"

section \<open>Vocabulary of the proofs about the merge\<close>

text \<open>
  A dictionary is \<open>keyed\<close> when its keys are distinct and every entry sits under the
  id of its destination. The \<open>tag\<close> of an entry is what the owner lookup leaves alone:
  the key, the id and the organizer flag.
\<close>

definition keyed :: "(int \<times> view) list \<Rightarrow> bool" where
  "keyed al = (distinct (map fst al) \<and> (\<forall>(k, v) \<in> set al. dest_id (dest v) = k))"

definition tag :: "int \<times> view \<Rightarrow> int \<times> int \<times> bool" where
  "tag p = (fst p, dest_id (dest (snd p)), is_organizer (snd p))"

section \<open>The formats of the persisted date and time\<close>

text \<open>
  The record shapes of the specification write a date as \<open>YYYY-MM-DD\<close> and a time
  as \<open>HH:MM:SS\<close>; the job also takes \<open>HH:MM\<close>. These functions print numbers in
  those shapes, with ASCII digits.
\<close>

definition digit_char :: "nat \<Rightarrow> nat" where
  "digit_char n = 48 + n"

definition two_digits :: "nat \<Rightarrow> pystr" where
  "two_digits n = [digit_char (n div 10), digit_char (n mod 10)]"

definition four_digits :: "nat \<Rightarrow> pystr" where
  "four_digits n = two_digits (n div 100) @ two_digits (n mod 100)"

definition hh_mm :: "nat \<Rightarrow> nat \<Rightarrow> pystr" where
  "hh_mm h m = two_digits h @ str '':'' @ two_digits m"

definition hh_mm_ss :: "nat \<Rightarrow> nat \<Rightarrow> nat \<Rightarrow> pystr" where
  "hh_mm_ss h m sec = two_digits h @ str '':'' @ two_digits m @ str '':'' @ two_digits sec"

definition yyyy_mm_dd :: "nat \<Rightarrow> nat \<Rightarrow> nat \<Rightarrow> pystr" where
  "yyyy_mm_dd y m d = four_digits y @ str ''-'' @ two_digits m @ str ''-'' @ two_digits d"

text \<open>
  The decomposition of a time string the way the amended claim C5 words it: the string
  is cut at the colons, the first three parts are read as numbers by \<open>int()\<close>, a part
  that is absent counts as 0, and parts after the third are not looked at. \<open>None\<close>:
  one of the parts that is read is no number.
\<close>

definition component :: "unicode_db \<Rightarrow> pystr list \<Rightarrow> nat \<Rightarrow> error + int" where
  "component db parts i = (if i < length parts then py_int db (parts ! i) else Inr 0)"

definition time_fields :: "unicode_db \<Rightarrow> pystr \<Rightarrow> (int \<times> int \<times> int) option" where
  "time_fields db st =
     (let parts = split_colon st in
      case component db parts 0 of
        Inl e \<Rightarrow> None
      | Inr h \<Rightarrow>
          (case component db parts 1 of
             Inl e \<Rightarrow> None
           | Inr m \<Rightarrow>
               (case component db parts 2 of
                  Inl e \<Rightarrow> None
                | Inr sec \<Rightarrow> Some (h, m, sec))))"

section \<open>Example data\<close>

text \<open>
  A Unicode database that knows, beyond ASCII, the Arabic-Indic digits U+0660 to U+0669.
\<close>

definition sample_db :: unicode_db where
  "sample_db c = (if 0x660 \<le> c \<and> c \<le> 0x669 then Some (c - 0x660) else None)"

text \<open>An all-day event of user 7 on 1 June 2024, and noon of that day.\<close>

definition all_day_event :: destination where
  "all_day_event =
     \<lparr>dest_id = 1, user_id = Some 7, place_name = str ''Park'',
      scheduled_date = Some (str ''2024-06-01''), scheduled_time = None, status = Some (str ''active'')\<rparr>"

definition all_day_store :: store where
  "all_day_store = \<lparr>destinations = [all_day_event], event_participants = [], users = []\<rparr>"

definition noon :: pydatetime where
  "noon = (2024, 6, 1, 12, 0, 0, 0)"

text \<open>
  Two active events of 1 January 2020, the first with a time that is no number, and an
  event at noon of 1 June 2024.
\<close>

definition malformed_event :: destination where
  "malformed_event =
     \<lparr>dest_id = 2, user_id = Some 7, place_name = str ''Cafe'',
      scheduled_date = Some (str ''2020-01-01''), scheduled_time = Some (str ''abc''),
      status = Some (str ''active'')\<rparr>"

definition old_event :: destination where
  "old_event =
     \<lparr>dest_id = 3, user_id = Some 7, place_name = str ''Pier'',
      scheduled_date = Some (str ''2020-01-01''), scheduled_time = Some (str ''10:00:00''),
      status = Some (str ''active'')\<rparr>"

definition malformed_store :: store where
  "malformed_store =
     \<lparr>destinations = [malformed_event, old_event], event_participants = [], users = []\<rparr>"



text \<open>A store with an event that is due at noon of 1 June 2024 and one that is not.\<close>

definition mixed_store :: store where
  "mixed_store =
     \<lparr>destinations = [all_day_event, old_event], event_participants = [], users = []\<rparr>"

text \<open>User 7 owns the all-day event and has also joined it.\<close>

definition own_event_store :: store where
  "own_event_store =
     \<lparr>destinations = [all_day_event],
      event_participants = [\<lparr>event_id = 1, participant_user_id = 7, participation_type = str ''joined''\<rparr>],
      users = [\<lparr>uid = 7, user_name = Some (str ''Ann''), user_email = Some (str ''ann@example.org'')\<rparr>]\<rparr>"

text \<open>
  User 7 owns the all-day event and has joined it, and has also joined the event of
  user 8.
\<close>

definition other_event :: destination where
  "other_event =
     \<lparr>dest_id = 5, user_id = Some 8, place_name = str ''Beach'',
      scheduled_date = Some (str ''2024-06-02''), scheduled_time = Some (str ''18:00:00''),
      status = Some (str ''active'')\<rparr>"

definition joined_store :: store where
  "joined_store =
     \<lparr>destinations = [all_day_event, other_event],
      event_participants =
        [\<lparr>event_id = 1, participant_user_id = 7, participation_type = str ''joined''\<rparr>,
         \<lparr>event_id = 5, participant_user_id = 7, participation_type = str ''joined''\<rparr>],
      users = [\<lparr>uid = 7, user_name = Some (str ''Ann''), user_email = Some (str ''ann@example.org'')\<rparr>,
               \<lparr>uid = 8, user_name = Some (str ''Bob''), user_email = Some (str ''bob@example.org'')\<rparr>]\<rparr>"

text \<open>
  The three events of the specification's example, all owned by user 7: 1 January 2024
  without a time, 1 January 2024 at 09:00:00 and 2 January 2024 at 00:00:00; and a client
  whose first query raises.
\<close>

definition jan1_all_day :: destination where
  "jan1_all_day =
     \<lparr>dest_id = 11, user_id = Some 7, place_name = str ''Market'',
      scheduled_date = Some (str ''2024-01-01''), scheduled_time = None, status = Some (str ''active'')\<rparr>"

definition jan1_morning :: destination where
  "jan1_morning =
     \<lparr>dest_id = 12, user_id = Some 7, place_name = str ''Museum'',
      scheduled_date = Some (str ''2024-01-01''), scheduled_time = Some (str ''09:00:00''),
      status = Some (str ''active'')\<rparr>"

definition jan2_midnight :: destination where
  "jan2_midnight =
     \<lparr>dest_id = 13, user_id = Some 7, place_name = str ''Harbour'',
      scheduled_date = Some (str ''2024-01-02''), scheduled_time = Some (str ''00:00:00''),
      status = Some (str ''active'')\<rparr>"

definition new_year_store :: store where
  "new_year_store =
     \<lparr>destinations = [jan1_all_day, jan1_morning, jan2_midnight], event_participants = [],
      users = [\<lparr>uid = 7, user_name = Some (str ''Ann''), user_email = Some (str ''ann@example.org'')\<rparr>]\<rparr>"

definition failing_client :: "store client" where
  "failing_client = supabase_client\<lparr>destinations_select_user := (\<lambda>u s. Inl StoreError)\<rparr>"

section \<open>Auxiliary facts\<close>

lemmas parse_defs =
  str_def strptime_date_def strptime_time_def is_digit_def digit_val_def decimal_def in_range_def
  date_def
  days_in_month_def is_leap_def time_def fits_c_int_def combine_def min_time_def

lemma str_eq_iff [simp]: "str a = str b \<longleftrightarrow> a = b"
proof -
  have "inj (of_char :: char \<Rightarrow> nat)" by (rule inj_of_char)
  then show ?thesis by (simp add: str_def inj_map_eq_map)
qed

lemma str_Nil_iff [simp]: "str a = [] \<longleftrightarrow> a = []"
  by (simp add: str_def)


lemma split_colon_not_Nil: "split_colon s \<noteq> []"
  by (induction s) (auto split: list.splits)

lemmas sweep_defs =
  execute_def process_event_def event_datetime_def timed_datetime_def all_day_datetime_def
  failed_def py_int_def is_space_def int_max_str_digits_def

lemma execute_loop_append:
  "execute_loop db c now (xs @ ys) s n =
     (case execute_loop db c now xs s n of
        (s', Inl e) \<Rightarrow> (s', Inl e)
      | (s', Inr m) \<Rightarrow> execute_loop db c now ys s' m)"
  by (induction xs arbitrary: s n) (auto split: prod.splits sum.splits)

lemma updated_rows_iff:
  "filter (\<lambda>d. dest_id d = i) (map (set_status i st) ds) \<noteq> [] \<longleftrightarrow> i \<in> dest_id ` set ds"
  by (induction ds) (auto simp: set_status_def)

lemma process_event_outcome:
  "process_event db supabase_client now ev s n =
     (case round_outcome db now ev of
        Inl e \<Rightarrow> (s, Inl e)
      | Inr due \<Rightarrow>
          if due then (mark_past {dest_id ev} s,
                       Inr (if dest_id ev \<in> dest_id ` set (destinations s) then n + 1 else n))
          else (s, Inr n))"
proof -
  have "map (set_status i (str ''past'')) ds
          = map (\<lambda>d. if dest_id d \<in> {i} then d\<lparr>status := Some (str ''past'')\<rparr> else d) ds" for i ds
    by (simp add: set_status_def)
  then show ?thesis
    by (auto simp: process_event_def round_outcome_def supabase_client_def mark_past_def
        updated_rows_iff split: option.splits sum.splits)
qed

lemma mark_past_empty: "mark_past {} s = s"
  by (simp add: mark_past_def)

lemma mark_past_mark_past: "mark_past U (mark_past V s) = mark_past (V \<union> U) s"
  by (auto simp: mark_past_def)

lemma filter_active_marked:
  "filter (\<lambda>d. status d = Some (str ''active''))
     (map (\<lambda>d. if dest_id d \<in> U then d\<lparr>status := Some (str ''past'')\<rparr> else d) ds)
   = filter (\<lambda>d. dest_id d \<notin> U) (filter (\<lambda>d. status d = Some (str ''active'')) ds)"
  by (induction ds) auto

lemma active_mark_past: "active (mark_past U s) = filter (\<lambda>d. dest_id d \<notin> U) (active s)"
  by (simp add: active_def mark_past_def filter_active_marked)

lemma select_active_eq: "destinations_select_active supabase_client s = Inr (active s)"
  by (simp add: supabase_client_def active_def)

text \<open>A list of events none of which is due or raises leaves everything as it is.\<close>

lemma execute_loop_idle:
  "\<forall>e \<in> set evs. round_outcome db now e = Inr False \<Longrightarrow>
     execute_loop db supabase_client now evs s n = (s, Inr n)"
  by (induction evs) (auto simp: process_event_outcome)

lemma execute_loop_raise:
  "round_outcome db now ev = Inl e \<Longrightarrow>
     execute_loop db supabase_client now (ev # evs) s n = (s, Inl e)"
  by (simp add: process_event_outcome)

lemma execute_loop_state:
  "fst (execute_loop db supabase_client now evs s n) = mark_past (due_ids db now evs) s"
proof (induction evs arbitrary: s n)
  case Nil
  show ?case by (simp add: due_ids_def mark_past_empty)
next
  case (Cons ev evs)
  show ?case
  proof (cases "round_outcome db now ev")
    case (Inl e)
    then show ?thesis
      by (simp add: process_event_outcome due_ids_def good_def mark_past_empty)
  next
    case (Inr due)
    show ?thesis
    proof (cases due)
      case True
      have "due_ids db now (ev # evs) = {dest_id ev} \<union> due_ids db now evs"
        using Inr True by (auto simp: due_ids_def good_def)
      then show ?thesis
        using Inr True Cons.IH
        by (simp add: process_event_outcome mark_past_mark_past del: insert_is_Un    )
    next
      case False
      have "due_ids db now (ev # evs) = due_ids db now evs"
        using Inr False by (auto simp: due_ids_def good_def)
      then show ?thesis
        using Inr False Cons.IH by (simp add: process_event_outcome)
    qed
  qed
qed

lemma execute_loop_no_raise:
  "dropWhile (good db now) evs = [] \<Longrightarrow>
     \<exists>m. snd (execute_loop db supabase_client now evs s n) = Inr m"
proof (induction evs arbitrary: s n)
  case Nil
  show ?case by simp
next
  case (Cons ev evs)
  then obtain due where "round_outcome db now ev = Inr due" and "dropWhile (good db now) evs = []"
    by (cases "round_outcome db now ev") (auto simp: good_def split: if_splits)
  with Cons.IH show ?case
    by (simp add: process_event_outcome)
qed

lemma execute_loop_first_raise:
  "dropWhile (good db now) evs = bad # post \<Longrightarrow> round_outcome db now bad = Inl e \<Longrightarrow>
     snd (execute_loop db supabase_client now evs s n) = Inl e"
proof (induction evs arbitrary: s n)
  case Nil
  then show ?case by simp
next
  case (Cons ev evs)
  show ?case
  proof (cases "good db now ev")
    case True
    then obtain due where "round_outcome db now ev = Inr due"
      by (cases "round_outcome db now ev") (auto simp: good_def)
    moreover from True Cons.prems have "dropWhile (good db now) evs = bad # post" by simp
    ultimately show ?thesis
      using Cons.IH Cons.prems(2) by (simp add: process_event_outcome)
  next
    case False
    with Cons.prems have "ev = bad" by simp
    with Cons.prems(2) show ?thesis by (simp add: process_event_outcome)
  qed
qed

lemma due_ids_subset: "due_ids db now evs \<subseteq> dest_id ` set (takeWhile (good db now) evs)"
  by (auto simp: due_ids_def)

lemma survivors_idle:
  "e \<in> set (filter (\<lambda>d. dest_id d \<notin> due_ids db now evs) (takeWhile (good db now) evs)) \<Longrightarrow>
     round_outcome db now e = Inr False"
proof -
  assume a: "e \<in> set (filter (\<lambda>d. dest_id d \<notin> due_ids db now evs) (takeWhile (good db now) evs))"
  then have in_pre: "e \<in> set (takeWhile (good db now) evs)" and out: "dest_id e \<notin> due_ids db now evs"
    by auto
  from in_pre have "good db now e" by (auto dest: set_takeWhileD)
  then obtain due where r: "round_outcome db now e = Inr due"
    by (cases "round_outcome db now e") (auto simp: good_def)
  have "\<not> due"
  proof
    assume due
    with r in_pre have "dest_id e \<in> due_ids db now evs" by (auto simp: due_ids_def)
    with out show False by simp
  qed
  with r show ?thesis by simp
qed

lemma rest_survives:
  assumes "distinct (map dest_id evs)"
  shows "filter (\<lambda>d. dest_id d \<notin> due_ids db now evs) (dropWhile (good db now) evs)
           = dropWhile (good db now) evs"
proof -
  have "map dest_id evs
          = map dest_id (takeWhile (good db now) evs) @ map dest_id (dropWhile (good db now) evs)"
    by (simp flip: map_append)
  with assms
  have "distinct (map dest_id (takeWhile (good db now) evs) @ map dest_id (dropWhile (good db now) evs))"
    by (simp only:)
  then have "set (map dest_id (takeWhile (good db now) evs))
               \<inter> set (map dest_id (dropWhile (good db now) evs)) = {}"
    by (simp only: distinct_append)
  then have "dest_id ` set (takeWhile (good db now) evs) \<inter> dest_id ` set (dropWhile (good db now) evs) = {}"
    by (simp only: set_map)
  with due_ids_subset [of db now evs]
  have "\<forall>d \<in> set (dropWhile (good db now) evs). dest_id d \<notin> due_ids db now evs" by blast
  then show ?thesis by (simp add: filter_id_conv)
qed

lemma second_list:
  assumes "distinct (map dest_id evs)"
  shows "filter (\<lambda>d. dest_id d \<notin> due_ids db now evs) evs
           = filter (\<lambda>d. dest_id d \<notin> due_ids db now evs) (takeWhile (good db now) evs)
             @ dropWhile (good db now) evs"
proof -
  have "filter (\<lambda>d. dest_id d \<notin> due_ids db now evs) evs
          = filter (\<lambda>d. dest_id d \<notin> due_ids db now evs)
              (takeWhile (good db now) evs @ dropWhile (good db now) evs)" by simp
  also have "\<dots> = filter (\<lambda>d. dest_id d \<notin> due_ids db now evs) (takeWhile (good db now) evs)
             @ dropWhile (good db now) evs"
    using rest_survives [OF assms, of db now] by (simp del: takeWhile_dropWhile_id)
  finally show ?thesis .
qed

lemma pair_of_set_participation: "pair_of (set_participation e u pt p) = pair_of p"
  by (simp add: pair_of_def set_participation_def)

lemma pair_of_comp: "pair_of \<circ> set_participation e u pt = pair_of"
  by (rule ext) (simp add: pair_of_set_participation)

lemma map_pair_of_update:
  "map pair_of (map (set_participation e u pt) ps) = map pair_of ps"
  by (simp add: pair_of_comp)

lemma pair_of_new:
  "pair_of \<lparr>event_id = e, participant_user_id = u, participation_type = pt\<rparr> = (e, u)"
  by (simp add: pair_of_def)

lemma no_record_iff:
  "filter (\<lambda>p. event_id p = e \<and> participant_user_id p = u) ps = [] \<longleftrightarrow> (e, u) \<notin> set (map pair_of ps)"
  by (induction ps) (auto simp: pair_of_def)

lemma participate_event_store:
  "snd (participate_event (Some supabase_client) u ptype e s) =
     (case ptype of
        None \<Rightarrow> s
      | Some pt \<Rightarrow>
          if pt \<notin> {(str ''joined''), (str ''interested'')} \<or> e \<notin> dest_id ` set (destinations s) then s
          else if (e, u) \<in> set (map pair_of (event_participants s))
          then s\<lparr>event_participants := map (set_participation e u pt) (event_participants s)\<rparr>
          else s\<lparr>event_participants := event_participants s
                   @ [\<lparr>event_id = e, participant_user_id = u, participation_type = pt\<rparr>]\<rparr>)"
proof -
  have ex: "filter (\<lambda>d. dest_id d = e) ds = [] \<longleftrightarrow> e \<notin> dest_id ` set ds" for ds
    by (induction ds) auto
  show ?thesis
    using ex [of "destinations s"] no_record_iff [of e u "event_participants s"]
    by (auto simp: participate_event_def supabase_client_def split: option.splits list.splits)
qed

lemma participate_event_distinct:
  assumes "distinct (map pair_of (event_participants s))"
  shows "distinct (map pair_of (event_participants (snd (participate_event (Some supabase_client) u ptype e s))))"
proof (cases ptype)
  case None
  with assms show ?thesis by (simp add: participate_event_store)
next
  case (Some pt)
  with assms show ?thesis
    by (simp add: participate_event_store pair_of_comp pair_of_new)
qed

lemma participate_all_distinct:
  "distinct (map pair_of (event_participants s)) \<Longrightarrow>
     distinct (map pair_of (event_participants (participate_all requests s)))"
proof (induction requests arbitrary: s)
  case Nil
  then show ?case by simp
next
  case (Cons r requests)
  obtain u ptype e where r: "r = (u, ptype, e)" by (cases r) auto
  from Cons.prems
  have "distinct (map pair_of (event_participants
           (snd (participate_event (Some supabase_client) u ptype e s))))"
    by (rule participate_event_distinct)
  then show ?case unfolding r by (simp add: Cons.IH)
qed

lemma filter_pair_distinct:
  "distinct (map pair_of ps) \<Longrightarrow> p \<in> set ps \<Longrightarrow> filter (\<lambda>q. pair_of q = pair_of p) ps = [p]"
proof (induction ps)
  case Nil
  then show ?case by simp
next
  case (Cons a ps)
  show ?case
  proof (cases "a = p")
    case True
    with Cons.prems have "pair_of p \<notin> pair_of ` set ps" by simp
    then have "\<forall>q \<in> set ps. pair_of q \<noteq> pair_of p" by (metis imageI)
    then have "filter (\<lambda>q. pair_of q = pair_of p) ps = []" by (simp add: filter_empty_conv)
    with True show ?thesis by simp
  next
    case False
    with Cons.prems have "p \<in> set ps" and "pair_of a \<noteq> pair_of p" by auto
    with Cons show ?thesis by simp
  qed
qed

lemma set_update_subset: "set (AList.update k v al) \<subseteq> insert (k, v) (set al)"
  by (induction al) auto

lemma keyed_update:
  "keyed al \<Longrightarrow> dest_id (dest v) = k \<Longrightarrow> keyed (AList.update k v al)"
  unfolding keyed_def using set_update_subset [of k v al]
  by (auto simp: distinct_update)

lemma add_created_keyed: "keyed al \<Longrightarrow> keyed (add_created created al)"
  unfolding add_created_def
  by (induction created arbitrary: al) (simp_all add: keyed_update)

lemma add_created_dom:
  "fst ` set (add_created created al) = fst ` set al \<union> dest_id ` set created"
  unfolding add_created_def
  by (induction created arbitrary: al) (auto simp: dom_update)

lemma add_created_organizer:
  "\<forall>(k, v) \<in> set al. is_organizer v \<Longrightarrow> \<forall>(k, v) \<in> set (add_created created al). is_organizer v"
  unfolding add_created_def
proof (induction created arbitrary: al)
  case Nil
  then show ?case by simp
next
  case (Cons d created)
  let ?al = "AList.update (dest_id d)
               \<lparr>dest = d, is_organizer = True, view_participation_type = None, organizer_name = None\<rparr> al"
  have "\<forall>(k, v) \<in> set ?al. is_organizer v"
    using Cons.prems set_update_subset [of "dest_id d" _ al] by fastforce
  from Cons.IH [OF this] show ?case by simp
qed

text \<open>The participant loop keeps the entries that are there and adds entries that are no organizers.\<close>

lemma update_absent: "k \<notin> fst ` set al \<Longrightarrow> AList.update k v al = al @ [(k, v)]"
  by (induction al) auto

lemma add_participant_keeps:
  "add_participant ps ds al = Inr al' \<Longrightarrow> keyed al \<Longrightarrow>
     keyed al' \<and> set al \<subseteq> set al'
     \<and> (\<forall>(k, v) \<in> set al' - set al. k \<notin> fst ` set al \<and> \<not> is_organizer v)"
proof (induction ps ds al rule: add_participant.induct)
  case (1 ps al)
  then show ?case by simp
next
  case (2 ps d ds al)
  let ?concl = "keyed al' \<and> set al \<subseteq> set al'
     \<and> (\<forall>(k, v) \<in> set al' - set al. k \<notin> fst ` set al \<and> \<not> is_organizer v)"
  show ?case
  proof (cases "map_of al (dest_id d) \<noteq> None")
    case True
    with 2 show ?thesis by simp
  next
    case False
    then have absent: "dest_id d \<notin> fst ` set al" by (simp add: map_of_eq_None_iff)
    have extend: ?concl
      if v: "dest v = d" "\<not> is_organizer v"
        and ih: "keyed (AList.update (dest_id d) v al) \<Longrightarrow>
           keyed al' \<and> set (AList.update (dest_id d) v al) \<subseteq> set al'
           \<and> (\<forall>(k, w) \<in> set al' - set (AList.update (dest_id d) v al).
                  k \<notin> fst ` set (AList.update (dest_id d) v al) \<and> \<not> is_organizer w)" for v
    proof -
      have "keyed (AList.update (dest_id d) v al)"
        using "2.prems"(2) v by (simp add: keyed_update)
      from ih [OF this]
      have main: "keyed al' \<and> set (al @ [(dest_id d, v)]) \<subseteq> set al'
           \<and> (\<forall>(k, w) \<in> set al' - set (al @ [(dest_id d, v)]).
                  k \<notin> fst ` set (al @ [(dest_id d, v)]) \<and> \<not> is_organizer w)"
        unfolding update_absent [OF absent] .
      then have k: "keyed al'" and sub: "set al \<subseteq> set al'" by simp_all
      have "k \<notin> fst ` set al \<and> \<not> is_organizer w" if "(k, w) \<in> set al' - set al" for k w
      proof (cases "(k, w) = (dest_id d, v)")
        case True
        with absent v show ?thesis by simp
      next
        case False
        with that have "(k, w) \<in> set al' - set (al @ [(dest_id d, v)])" by simp
        with main have "k \<notin> fst ` set (al @ [(dest_id d, v)]) \<and> \<not> is_organizer w" by blast
        then show ?thesis by simp
      qed
      with k sub show ?thesis by blast
    qed
    show ?thesis
    proof (cases "find (\<lambda>p. row_event_id p = dest_id d) ps")
      case None
      let ?v = "\<lparr>dest = d, is_organizer = False, view_participation_type = Some None,
                 organizer_name = None\<rparr>"
      from "2.prems"(1) False None
      have step: "add_participant ps ds (AList.update (dest_id d) ?v al) = Inr al'" by simp
      show ?thesis
        by (rule extend [of ?v]) (simp_all add: "2.IH"(2) [OF False None step])
    next
      case (Some part)
      with "2.prems"(1) False obtain pt where pt: "row_participation_type part = Some pt"
        by (auto split: option.splits)
      let ?v = "\<lparr>dest = d, is_organizer = False, view_participation_type = Some (Some pt),
                 organizer_name = None\<rparr>"
      from "2.prems"(1) False Some pt
      have step: "add_participant ps ds (AList.update (dest_id d) ?v al) = Inr al'" by simp
      show ?thesis
        by (rule extend [of ?v]) (simp_all add: "2.IH"(3) [OF False Some pt step])
    qed
  qed
qed

lemma with_organizer_name_keeps:
  "with_organizer_name c s v = Inr v' \<Longrightarrow> dest v' = dest v \<and> is_organizer v' = is_organizer v"
  by (auto simp: with_organizer_name_def split: option.splits if_splits sum.splits list.splits)

lemma add_organizer_names_keeps:
  "add_organizer_names c s al = Inr al' \<Longrightarrow> map tag al' = map tag al"
proof (induction al arbitrary: al')
  case Nil
  then show ?case by simp
next
  case (Cons kv al)
  obtain k v where kv: "kv = (k, v)" by (cases kv)
  from Cons.prems obtain v' rest' where
    v': "with_organizer_name c s v = Inr v'" and rest: "add_organizer_names c s al = Inr rest'"
    and al': "al' = (k, v') # rest'"
    unfolding kv by (auto split: sum.splits)
  from with_organizer_name_keeps [OF v'] have "tag (k, v') = tag (k, v)"
    by (simp add: tag_def)
  with Cons.IH [OF rest] show ?case
    unfolding kv al' by simp
qed

lemma distinct_map_sort_key:
  "distinct (map f (sort_key k xs)) = distinct (map f xs)"
  by (simp add: distinct_map)

lemma tag_image:
  "map tag named = map tag al \<Longrightarrow> p \<in> set al \<Longrightarrow> \<exists>q \<in> set named. tag q = tag p"
proof -
  assume eq: "map tag named = map tag al" and p: "p \<in> set al"
  from p have "tag p \<in> set (map tag al)" by simp
  with eq have "tag p \<in> set (map tag named)" by simp
  then have "tag p \<in> tag ` set named" by (simp only: set_map)
  then obtain q where q: "tag p = tag q" "q \<in> set named" by (rule imageE)
  from q(2) q(1) [symmetric] show ?thesis by (rule bexI [rotated])
qed

lemma merged_core:
  assumes part: "add_participant ps pds (add_created created []) = Inr al"
    and names: "add_organizer_names c s al = Inr named"
  shows "distinct (map (\<lambda>v. dest_id (dest v)) (map snd named))"
    and "\<forall>v \<in> set (map snd named). dest_id (dest v) \<in> dest_id ` set created \<longrightarrow> is_organizer v"
    and "\<forall>d \<in> set created. \<exists>v \<in> set (map snd named). dest_id (dest v) = dest_id d \<and> is_organizer v"
proof -
  let ?al0 = "add_created created []"
  have k0: "keyed ?al0" by (rule add_created_keyed) (simp add: keyed_def)
  have dom0: "fst ` set ?al0 = dest_id ` set created" by (simp add: add_created_dom)
  have org0: "\<forall>(k, v) \<in> set ?al0. is_organizer v" by (rule add_created_organizer) simp
  from add_participant_keeps [OF part k0]
  have k: "keyed al" and sub: "set ?al0 \<subseteq> set al"
    and new: "\<forall>(k, v) \<in> set al - set ?al0. k \<notin> fst ` set ?al0 \<and> \<not> is_organizer v"
    by simp_all
  have same: "map tag named = map tag al"
    using names by (rule add_organizer_names_keeps)
  have keyed_tag: "fst (snd (tag p)) = fst (tag p)" if "p \<in> set al" for p
    using k that by (cases p) (auto simp: keyed_def tag_def)
  have "map (\<lambda>v. dest_id (dest v)) (map snd named) = map (\<lambda>p. fst (snd (tag p))) named"
    by (simp add: tag_def)
  also have "\<dots> = map (\<lambda>t. fst (snd t)) (map tag named)" by simp
  also have "\<dots> = map (\<lambda>t. fst (snd t)) (map tag al)" by (simp only: same)
  also have "\<dots> = map (\<lambda>p. fst (snd (tag p))) al" by simp
  also have "\<dots> = map (\<lambda>p. fst (tag p)) al" using keyed_tag by simp
  also have "\<dots> = map fst al" by (simp add: tag_def)
  finally have ids: "map (\<lambda>v. dest_id (dest v)) (map snd named) = map fst al" .
  from k show "distinct (map (\<lambda>v. dest_id (dest v)) (map snd named))"
    unfolding ids by (simp add: keyed_def)
  show "\<forall>v \<in> set (map snd named). dest_id (dest v) \<in> dest_id ` set created \<longrightarrow> is_organizer v"
  proof (intro ballI impI)
    fix v' assume v': "v' \<in> set (map snd named)" and own: "dest_id (dest v') \<in> dest_id ` set created"
    from v' obtain k' where q: "(k', v') \<in> set named" by auto
    from tag_image [OF same [symmetric] q] obtain p where p: "p \<in> set al" "tag p = tag (k', v')"
      by blast
    obtain kk v where pkv: "p = (kk, v)" by (cases p)
    from p(2) have eqs: "dest_id (dest v) = dest_id (dest v')" "is_organizer v = is_organizer v'"
      unfolding pkv by (simp_all add: tag_def)
    from keyed_tag [OF p(1)] have "dest_id (dest v) = kk" unfolding pkv by (simp add: tag_def)
    with own eqs(1) dom0 have in0: "kk \<in> fst ` set ?al0" by simp
    have "(kk, v) \<in> set ?al0"
    proof (rule ccontr)
      assume "(kk, v) \<notin> set ?al0"
      with p(1) pkv have "(kk, v) \<in> set al - set ?al0" by simp
      with new have "kk \<notin> fst ` set ?al0" by blast
      with in0 show False by simp
    qed
    with org0 have "is_organizer v" by blast
    with eqs(2) show "is_organizer v'" by simp
  qed
  show "\<forall>d \<in> set created. \<exists>v \<in> set (map snd named). dest_id (dest v) = dest_id d \<and> is_organizer v"
  proof
    fix d assume "d \<in> set created"
    with dom0 have "dest_id d \<in> fst ` set ?al0" by blast
    then obtain v where v0: "(dest_id d, v) \<in> set ?al0" by auto
    from v0 org0 have org: "is_organizer v" by blast
    from v0 sub have in_al: "(dest_id d, v) \<in> set al" by blast
    from keyed_tag [OF in_al] have idv: "dest_id (dest v) = dest_id d" by (simp add: tag_def)
    from tag_image [OF same in_al] obtain q where q: "q \<in> set named" "tag q = tag (dest_id d, v)"
      by blast
    obtain k' v' where qkv: "q = (k', v')" by (cases q)
    from q(2) have "dest_id (dest v') = dest_id (dest v)" "is_organizer v' = is_organizer v"
      unfolding qkv by (simp_all add: tag_def)
    with org idv have good: "dest_id (dest v') = dest_id d \<and> is_organizer v'" by simp
    from q(1) have "v' \<in> set (map snd named)" unfolding qkv by force
    with good show "\<exists>v \<in> set (map snd named). dest_id (dest v) = dest_id d \<and> is_organizer v"
      by blast
  qed
qed

lemma sort_views_result:
  "sort_views xs = Inr result \<Longrightarrow> result = sort_key key_of xs"
  by (simp add: sort_views_def split: if_splits)

lemmas aggregate_defs =
  get_destinations_def get_destinations_try_def collect_destinations_def add_created_def
  with_organizer_name_def py_or_def sort_views_def key_of_def key_lt_def supabase_client_def

lemmas new_year_defs = new_year_store_def jan1_all_day_def jan1_morning_def jan2_midnight_def

lemma add_organizer_names_fails:
  "(k, v) \<in> set al \<Longrightarrow> with_organizer_name c s v = Inl e \<Longrightarrow>
     \<exists>e'. add_organizer_names c s al = Inl e'"
proof (induction al)
  case Nil
  then show ?case by simp
next
  case (Cons kv al)
  obtain k0 v0 where kv: "kv = (k0, v0)" by (cases kv)
  show ?case
  proof (cases "with_organizer_name c s v0")
    case (Inl e0)
    then show ?thesis unfolding kv by simp
  next
    case (Inr v0')
    with Cons.prems have "(k, v) \<in> set al" unfolding kv by auto
    from Cons.IH [OF this Cons.prems(2)] obtain e' where "add_organizer_names c s al = Inl e'" ..
    with Inr show ?thesis unfolding kv by simp
  qed
qed

lemma try_fails_empty:
  "get_destinations_try c u s = Inl e \<Longrightarrow> get_destinations (Some c) u s = []"
  by (simp add: get_destinations_def)

lemma collect_fails_empty:
  "collect_destinations c u s = Inl e \<Longrightarrow> get_destinations (Some c) u s = []"
  by (simp add: get_destinations_def get_destinations_try_def)

lemma digit_char_props:
  assumes "n < 10"
  shows "is_digit (digit_char n)" and "int (digit_char n) - 48 = int n"
    and "decimal db (digit_char n) = Some n" and "digit_val db (digit_char n) = int n"
    and "\<not> is_space (digit_char n)" and "digit_char n < 127"
    and "digit_char n \<noteq> 58" and "digit_char n \<noteq> 45"
    and "digit_char n \<noteq> 43" and "digit_char n \<noteq> 95"
    and "in_range (digit_char n) lo hi \<longleftrightarrow> lo \<le> n \<and> n \<le> hi"
  using assms
  by (simp_all add: digit_char_def is_digit_def decimal_def digit_val_def is_space_def
      in_range_def)

lemma to_ascii_two_digits: "n < 100 \<Longrightarrow> to_ascii db (two_digits n) = two_digits n"
proof -
  assume "n < 100"
  then have a: "n div 10 < 10" and b: "n mod 10 < 10" by simp_all
  show ?thesis
    by (simp add: two_digits_def digit_char_props(6) [OF a] digit_char_props(6) [OF b])
qed

lemma py_int_two_digits: "n < 100 \<Longrightarrow> py_int db (two_digits n) = Inr (int n)"
proof -
  assume n: "n < 100"
  then have a: "n div 10 < 10" and b: "n mod 10 < 10" by simp_all
  have v: "int (n div 10) * 10 + int (n mod 10) = int n"
    by (metis add.commute mult.commute of_nat_add of_nat_mult of_nat_numeral mod_mult_div_eq)
  have asc: "to_ascii db (two_digits n) = [digit_char (n div 10), digit_char (n mod 10)]"
    using to_ascii_two_digits [OF n] by (simp add: two_digits_def)
  show ?thesis
    unfolding py_int_def asc using v
    by (simp add: digit_char_props [OF a] digit_char_props [OF b] int_max_str_digits_def)
qed

lemma split_colon_plain: "58 \<notin> set xs \<Longrightarrow> split_colon xs = [xs]"
  by (induction xs) auto

lemma split_colon_append:
  "58 \<notin> set xs \<Longrightarrow> split_colon (xs @ 58 # ys) = xs # split_colon ys"
  by (induction xs) auto

lemma two_digits_no_colon: "n < 100 \<Longrightarrow> 58 \<notin> set (two_digits n)"
proof -
  assume "n < 100"
  then have a: "n div 10 < 10" and b: "n mod 10 < 10" by simp_all
  from digit_char_props(7) [OF a] digit_char_props(7) [OF b] show ?thesis
    by (auto simp: two_digits_def)
qed

lemma split_two_digits: "n < 100 \<Longrightarrow> split_colon (two_digits n) = [two_digits n]"
  by (simp add: split_colon_plain two_digits_no_colon)

lemma split_hh_mm:
  "h < 100 \<Longrightarrow> m < 100 \<Longrightarrow> split_colon (hh_mm h m) = [two_digits h, two_digits m]"
  by (simp add: hh_mm_def str_def split_colon_append split_colon_plain two_digits_no_colon)

lemma split_hh_mm_ss:
  "h < 100 \<Longrightarrow> m < 100 \<Longrightarrow> sec < 100 \<Longrightarrow>
     split_colon (hh_mm_ss h m sec) = [two_digits h, two_digits m, two_digits sec]"
  by (simp add: hh_mm_ss_def str_def split_colon_append split_colon_plain two_digits_no_colon)

lemma time_fields_formats:
  assumes "h < 100" "m < 100" "sec < 100"
  shows "time_fields db (hh_mm_ss h m sec) = Some (int h, int m, int sec)"
    and "time_fields db (hh_mm h m) = Some (int h, int m, 0)"
    and "time_fields db (two_digits h) = Some (int h, 0, 0)"
  using assms
  by (simp_all add: time_fields_def component_def split_hh_mm_ss split_hh_mm split_two_digits
      py_int_two_digits)

lemma strptime_date_error: "strptime_date db sd = Inl e \<Longrightarrow> e = ValueError_date"
  by (auto simp: strptime_date_def date_def split: list.splits if_splits option.splits prod.splits)

lemma py_int_error: "py_int db x = Inl e \<Longrightarrow> e = ValueError_int"
  by (auto simp: py_int_def Let_def split: list.splits if_splits option.splits prod.splits)

lemma timed_datetime_fields:
  "timed_datetime db sd st =
     (case time_fields db st of
        None \<Rightarrow> Inl ValueError_int
      | Some (h, m, sec) \<Rightarrow>
          (case strptime_date db sd of
             Inl e \<Rightarrow> Inl ValueError_date
           | Inr d \<Rightarrow>
               if \<not> (fits_c_int h \<and> fits_c_int m \<and> fits_c_int sec) then Inl OverflowError
               else if 0 \<le> h \<and> h < 24 \<and> 0 \<le> m \<and> m < 60 \<and> 0 \<le> sec \<and> sec < 60
               then Inr (combine d (h, m, sec, 0))
               else Inl ValueError_time))"
proof -
  have hd0: "hd (split_colon st) = split_colon st ! 0"
    using split_colon_not_Nil [of st] by (simp add: hd_conv_nth)
  have len: "0 < length (split_colon st)"
    using split_colon_not_Nil [of st] by simp
  show ?thesis
    using len
    by (auto simp: timed_datetime_def time_fields_def component_def hd0 time_def Let_def
        dest: py_int_error strptime_date_error split: sum.splits)
qed

lemma month_re_two_digits:
  assumes "1 \<le> m" "m \<le> 12"
  shows "month_re (two_digits m @ r) = Some (int m, r)"
proof (cases "m < 10")
  case True
  then have a: "m div 10 = 0" and b: "m mod 10 = m" by simp_all
  from True assms show ?thesis
    by (simp add: two_digits_def a b digit_char_def in_range_def)
next
  case False
  with assms have a: "m div 10 = 1" and b: "m mod 10 \<le> 2"
    and v: "10 + int (m mod 10) = int m" by presburger+
  from b v show ?thesis
    by (simp add: two_digits_def a digit_char_def in_range_def)
qed

lemma day_re_two_digits:
  assumes "1 \<le> d" "d \<le> 31"
  shows "day_re db (two_digits d) = Some (int d, [])"
proof -
  have a: "d div 10 < 10" and b: "d mod 10 < 10" using assms by simp_all
  have v: "10 * int (d div 10) + int (d mod 10) = int d" by presburger
  consider "d < 10" | "10 \<le> d" "d < 30" | "30 \<le> d" by linarith
  then show ?thesis
  proof cases
    case 1
    then have z: "d div 10 = 0" "d mod 10 = d" by simp_all
    from assms 1 show ?thesis
      by (simp add: two_digits_def z digit_char_def in_range_def)
  next
    case 2
    then have r: "1 \<le> d div 10" "d div 10 \<le> 2" by presburger+
    from r v show ?thesis
      by (simp add: two_digits_def digit_char_props [OF b] digit_char_props(11) [OF a])
        (simp add: digit_char_def)
  next
    case 3
    with assms have r: "d div 10 = 3" "d mod 10 \<le> 1" "30 + int (d mod 10) = int d" by presburger+
    then show ?thesis
      by (simp add: two_digits_def digit_char_def in_range_def)
  qed
qed

lemma strptime_date_format:
  assumes "y \<le> 9999" "1 \<le> m" "m \<le> 12" "1 \<le> d" "d \<le> 31"
  shows "strptime_date db (yyyy_mm_dd y m d) = date (int y) (int m) (int d)"
proof -
  let ?a = "y div 100 div 10" and ?b = "y div 100 mod 10"
  let ?c = "y mod 100 div 10" and ?e = "y mod 100 mod 10"
  have lt: "?a < 10" "?b < 10" "?c < 10" "?e < 10" using assms(1) by simp_all
  have two: "10 * (p div 10) + p mod 10 = p" for p :: nat by simp
  have "y = 100 * (y div 100) + y mod 100" by simp
  also have "\<dots> = 100 * (10 * ?a + ?b) + (10 * ?c + ?e)" by (simp only: two)
  finally have "int y = int (100 * (10 * ?a + ?b) + (10 * ?c + ?e))" by (simp only:)
  also have "\<dots> = 1000 * int ?a + 100 * int ?b + 10 * int ?c + int ?e"
    by (simp only: of_nat_add of_nat_mult of_nat_numeral) (simp add: algebra_simps)
  finally have v: "1000 * int ?a + 100 * int ?b + 10 * int ?c + int ?e = int y" by simp
  have str: "yyyy_mm_dd y m d =
      digit_char ?a # digit_char ?b # digit_char ?c # digit_char ?e # 45
        # (two_digits m @ 45 # two_digits d)"
    by (simp add: yyyy_mm_dd_def four_digits_def two_digits_def str_def)
  show ?thesis
    unfolding str strptime_date_def
    by (simp add: month_re_two_digits [OF assms(2,3)] day_re_two_digits [OF assms(4,5)]
        digit_char_props(3,4) [OF lt(1)] digit_char_props(3,4) [OF lt(2)]
        digit_char_props(3,4) [OF lt(3)] digit_char_props(3,4) [OF lt(4)] v)
qed

lemma days_in_month_le: "days_in_month y m \<le> 31"
  by (simp add: days_in_month_def)

lemma strptime_date_valid:
  assumes "1 \<le> y" "y \<le> 9999" "1 \<le> m" "m \<le> 12" "1 \<le> d" "int d \<le> days_in_month (int y) (int m)"
  shows "strptime_date db (yyyy_mm_dd y m d) = Inr (int y, int m, int d)"
proof -
  from assms(6) days_in_month_le [of "int y" "int m"] have "d \<le> 31" by linarith
  from strptime_date_format [OF assms(2,3,4,5) this] assms show ?thesis
    by (simp add: date_def)
qed

lemma strptime_date_sound:
  "strptime_date db sd = Inr (y, m, d) \<Longrightarrow>
     1 \<le> y \<and> y \<le> 9999 \<and> 1 \<le> m \<and> m \<le> 12 \<and> 1 \<le> d \<and> d \<le> days_in_month y m"
  by (auto simp: strptime_date_def date_def split: list.splits if_splits option.splits prod.splits)

lemma formats_eval:
  "yyyy_mm_dd 2024 6 1 = str ''2024-06-01''" "hh_mm_ss 10 30 0 = str ''10:30:00''"
  "hh_mm 10 30 = str ''10:30''" "two_digits 10 = str ''10''"
  by (simp_all add: yyyy_mm_dd_def hh_mm_ss_def hh_mm_def four_digits_def two_digits_def
      digit_char_def str_def)

text \<open>How \<open>int()\<close> and \<open>strptime\<close> read some strings, as CPython 3.11 does.\<close>

lemma py_int_examples:
  "py_int sample_db (str ''10'') = Inr 10"
  "py_int sample_db (str '' +1_0 '') = Inr 10"
  "py_int sample_db (str ''-5'') = Inr (- 5)"
  "py_int sample_db (str ''1__0'') = Inl ValueError_int"
  "py_int sample_db (str ''10_'') = Inl ValueError_int"
  "py_int sample_db (str ''abc'') = Inl ValueError_int"
  "py_int sample_db [] = Inl ValueError_int"
  "py_int sample_db (0x1C # str ''10'') = Inl ValueError_int"
  "py_int sample_db (0xA0 # str ''10'') = Inr 10"
  "py_int sample_db (str ''10'' @ [0x85]) = Inr 10"
  "py_int sample_db (0x3000 # str ''10'') = Inr 10"
  "py_int sample_db [0x663] = Inr 3"
  "py_int sample_db [ord CHR ''1'', 0x663] = Inr 13"
  "py_int sample_db [0xB2] = Inl ValueError_int"
  "py_int sample_db [0x7F, ord CHR ''1''] = Inl ValueError_int"
  by (simp_all add: py_int_def str_def is_space_def unicode_space_def is_digit_def decimal_def
      sample_db_def int_max_str_digits_def)

lemma after_digit_zeros: "after_digit 0 k (replicate n 48) = Some (0, k + n, [])"
proof (induction n arbitrary: k)
  case 0
  show ?case by simp
next
  case (Suc n)
  show ?case
  proof (cases n)
    case 0
    then show ?thesis by (simp add: is_digit_def)
  next
    case (Suc m)
    have "after_digit 0 k (replicate (Suc n) 48) = after_digit 0 (Suc k) (replicate n 48)"
      unfolding Suc by (simp add: is_digit_def)
    then show ?thesis by (simp add: Suc.IH)
  qed
qed

lemma to_ascii_zeros: "to_ascii db (replicate n 48) = replicate n 48"
  by (induction n) simp_all

text \<open>A text of zeros is read up to 4300 digits and refused beyond.\<close>

lemma py_int_zeros:
  "py_int db (replicate (Suc n) 48) = (if Suc n \<le> 4300 then Inr 0 else Inl ValueError_int)"
  by (simp add: py_int_def to_ascii_zeros is_space_def is_digit_def after_digit_zeros
      int_max_str_digits_def)

lemma strptime_examples:
  "strptime_date sample_db (str ''2024-06-01'') = Inr (2024, 6, 1)"
  "strptime_date sample_db (str ''2024-6-1'') = Inr (2024, 6, 1)"
  "strptime_date sample_db (str ''2024-06- 1'') = Inr (2024, 6, 1)"
  "strptime_date sample_db ([0x662, 0x660, 0x662, 0x664] @ str ''-06-01'') = Inr (2024, 6, 1)"
  "strptime_date sample_db (str ''2024-06-1'' @ [0x661]) = Inr (2024, 6, 11)"
  "strptime_date sample_db (str ''2024-06-0'' @ [0x661]) = Inl ValueError_date"
  "strptime_date sample_db (str ''2024-06-01 '') = Inl ValueError_date"
  "strptime_date sample_db (str ''0000-01-01'') = Inl ValueError_date"
  "strptime_date sample_db (str ''2024-02-30'') = Inl ValueError_date"
  "strptime_time sample_db (str ''7:5:3'') = Inr (7, 5, 3, 0)"
  "strptime_time sample_db ([ord CHR ''1'', 0x663] @ str '':00:00'') = Inr (13, 0, 0, 0)"
  "strptime_time sample_db (str ''10:00:6'' @ [0x660]) = Inl ValueError_time"
  "strptime_time sample_db (str ''10:00:60'') = Inl ValueError_time"
  "strptime_time sample_db (str ''24:00:00'') = Inl ValueError_time"
  by (simp_all add: parse_defs sample_db_def)

lemma event_datetime_examples:
  "event_datetime sample_db (str ''2024-06-01'') (Some (str ''10:30:00:zz'')) = Inr (2024, 6, 1, 10, 30, 0, 0)"
  "event_datetime sample_db (str ''2024-06-01'') (Some (str '' 1_0 : +3 '')) = Inr (2024, 6, 1, 10, 3, 0, 0)"
  "event_datetime sample_db (str ''2024-06-01'') (Some (str ''10::'')) = Inl ValueError_int"
  "event_datetime sample_db (str ''2024-06-01'') (Some (str ''99999999999'')) = Inl OverflowError"
  "event_datetime sample_db (str ''bad'') (Some (str ''99999999999'')) = Inl ValueError_date"
  "event_datetime sample_db (str ''bad'') (Some (str ''25:00'')) = Inl ValueError_date"
  "event_datetime sample_db (str ''2024-06-01'') (Some (str ''25:00'')) = Inl ValueError_time"
  by (simp_all add: sweep_defs parse_defs)

section \<open>Cancelling\<close>

text \<open>
  C1. The owner of an all-day event that is not cancelled asks to cancel it at noon of
  its scheduled day. The end of that day, 23:59:59, which is the instant the job
  compares with, is not before noon; yet \<open>cancel_destination\<close> combines the date
  with midnight and answers that past events cannot be cancelled.
\<close>

theorem cancel_all_day_event_on_its_day:
  "event_datetime sample_db (str ''2024-06-01'') None = Inr (2024, 6, 1, 23, 59, 59, 0)
   \<and> \<not> (2024, 6, 1, 23, 59, 59, 0) < noon
   \<and> cancel_destination sample_db (Some supabase_client) 7 noon 1 all_day_store
       = (Error ''Cannot cancel past events'' 400, all_day_store)"
  by (simp add: event_datetime_def all_day_datetime_def parse_defs noon_def
      cancel_destination_def supabase_client_def all_day_store_def all_day_event_def
      scheduled_datetime_def)

text \<open>
  C10. Whenever \<open>cancel_destination\<close> answers with an error, the state of the store is
  the one it started from; and when the answer is one of the error messages (not found,
  unauthorized, already cancelled, past event), the answer does not depend on what the
  update call would do: the route never reaches it.
\<close>

theorem cancel_error_leaves_store:
  assumes "cancel_destination db (Some c) u now i s = (r, s')"
  shows "((\<forall>rows. r \<noteq> Json rows) \<longrightarrow> s' = s)
       \<and> ((\<exists>msg code. r = Error msg code) \<longrightarrow>
            (\<forall>f. cancel_destination db (Some (c\<lparr>destinations_update_status := f\<rparr>)) u now i s
                   = (r, s)))"
  using assms
  by (auto simp: cancel_destination_def
      split: if_splits option.splits sum.splits prod.splits list.splits)

theorem cancel_error_leaves_store_witness:
  "cancel_destination sample_db (Some supabase_client) 9 noon 1 all_day_store
     = (Error ''Unauthorized'' 403, all_day_store)
   \<and> (\<forall>f. cancel_destination sample_db (Some (supabase_client\<lparr>destinations_update_status := f\<rparr>))
            9 noon 1 all_day_store = (Error ''Unauthorized'' 403, all_day_store))"
proof -
  have run: "cancel_destination sample_db (Some supabase_client) 9 noon 1 all_day_store
     = (Error ''Unauthorized'' 403, all_day_store)"
    by (simp add: cancel_destination_def supabase_client_def all_day_store_def all_day_event_def)
  from cancel_error_leaves_store [OF run] run show ?thesis by blast
qed

section \<open>The sweep\<close>







text \<open>
  C7, as the specification states it, fails on a store with a malformed active event:
  the first run fails and leaves the store as it is, and the report of the second run has
  no \<open>updated\<close> count at all.
\<close>

theorem second_run_counterexample:
  "snd (execute sample_db (Some supabase_client) noon malformed_store) = malformed_store
   \<and> updated (fst (execute sample_db (Some supabase_client) noon
                      (snd (execute sample_db (Some supabase_client) noon malformed_store)))) \<noteq> Some 0"
  by (simp add: sweep_defs parse_defs noon_def supabase_client_def malformed_store_def
      malformed_event_def old_event_def)

text \<open>
  C7, amended. On a store whose destinations have distinct ids, at one fixed instant, the
  second of two successive runs leaves the store as the first run left it. When the first
  run succeeded, the second succeeds with \<open>updated = 0\<close>: the events the first run set to
  \<open>past\<close> are not fetched again. When the first run failed, the second fails with the
  same report.
\<close>

theorem second_run_changes_nothing:
  assumes d: "distinct (map dest_id (destinations s))"
    and r1: "execute db (Some supabase_client) now s = (r1, s1)"
    and r2: "execute db (Some supabase_client) now s1 = (r2, s2)"
  shows "s2 = s1 \<and> (success r1 \<longrightarrow> success r2 \<and> updated r2 = Some 0)
           \<and> (\<not> success r1 \<longrightarrow> r2 = r1)"
proof (cases "active s = []")
  case True
  with r1 have "s1 = s" and "r1 = \<lparr>success = True, checked = None, updated = Some 0, job_error = None\<rparr>"
    by (auto simp: execute_def select_active_eq)
  with True r2 show ?thesis by (auto simp: execute_def select_active_eq)
next
  case False
  let ?A = "active s"
  let ?U = "due_ids db now ?A"
  let ?pre' = "filter (\<lambda>d. dest_id d \<notin> ?U) (takeWhile (good db now) ?A)"
  let ?rest = "dropWhile (good db now) ?A"
  obtain res where loop: "execute_loop db supabase_client now ?A s 0 = (mark_past ?U s, res)"
    using execute_loop_state [of db now ?A s 0] by (cases "execute_loop db supabase_client now ?A s 0") auto
  from False r1 loop have s1: "s1 = mark_past ?U s"
    by (auto simp: execute_def select_active_eq split: sum.splits)
  have dA: "distinct (map dest_id ?A)"
    using d by (simp add: active_def distinct_map_filter)
  have A': "active s1 = ?pre' @ ?rest"
    using second_list [OF dA, of db now] by (simp add: s1 active_mark_past)
  have idle: "execute_loop db supabase_client now ?pre' s1 0 = (s1, Inr 0)"
    by (rule execute_loop_idle) (blast dest: survivors_idle)
  show ?thesis
  proof (cases ?rest)
    case Nil
    then obtain m where "res = Inr m"
      using execute_loop_no_raise [of db now ?A s 0] loop by auto
    with False r1 loop have ok1: "success r1"
      by (auto simp: execute_def select_active_eq)
    from A' have A'': "active s1 = ?pre'" by (simp only: Nil append_Nil2)
    from idle r2 have "s2 = s1 \<and> success r2 \<and> updated r2 = Some 0"
      by (auto simp: execute_def select_active_eq A'' split: if_splits)
    with ok1 show ?thesis by simp
  next
    case (Cons bad post)
    then have "\<not> good db now bad"
      using hd_dropWhile [of "good db now" ?A] by simp
    then obtain e where e: "round_outcome db now bad = Inl e"
      by (cases "round_outcome db now bad") (auto simp: good_def)
    from execute_loop_first_raise [OF Cons e, of s 0] loop have "res = Inl e" by simp
    with False r1 loop have f1: "r1 = failed (Some e)"
      by (auto simp: execute_def select_active_eq)
    have "execute_loop db supabase_client now (?pre' @ bad # post) s1 0 = (s1, Inl e)"
      using idle e by (simp add: execute_loop_append process_event_outcome)
    with A' Cons r2 have "s2 = s1 \<and> r2 = failed (Some e)"
      by (auto simp: execute_def select_active_eq)
    with f1 show ?thesis by (simp add: failed_def)
  qed
qed

theorem second_run_changes_nothing_witness:
  "distinct (map dest_id (destinations mixed_store))
   \<and> fst (execute sample_db (Some supabase_client) noon mixed_store)
       = \<lparr>success = True, checked = Some 2, updated = Some 1, job_error = None\<rparr>
   \<and> snd (execute sample_db (Some supabase_client) noon
             (snd (execute sample_db (Some supabase_client) noon mixed_store)))
       = snd (execute sample_db (Some supabase_client) noon mixed_store)
   \<and> updated (fst (execute sample_db (Some supabase_client) noon
                      (snd (execute sample_db (Some supabase_client) noon mixed_store)))) = Some 0"
proof -
  have d: "distinct (map dest_id (destinations mixed_store))"
    by (simp add: mixed_store_def all_day_event_def old_event_def)
  have r1: "fst (execute sample_db (Some supabase_client) noon mixed_store)
              = \<lparr>success = True, checked = Some 2, updated = Some 1, job_error = None\<rparr>"
    by (simp add: sweep_defs parse_defs noon_def supabase_client_def mixed_store_def
        all_day_event_def old_event_def set_status_def)
  from second_run_changes_nothing [OF d, of sample_db noon
         "fst (execute sample_db (Some supabase_client) noon mixed_store)"
         "snd (execute sample_db (Some supabase_client) noon mixed_store)"
         "fst (execute sample_db (Some supabase_client) noon
                 (snd (execute sample_db (Some supabase_client) noon mixed_store)))"
         "snd (execute sample_db (Some supabase_client) noon
                 (snd (execute sample_db (Some supabase_client) noon mixed_store)))"]
  have "snd (execute sample_db (Some supabase_client) noon
               (snd (execute sample_db (Some supabase_client) noon mixed_store)))
          = snd (execute sample_db (Some supabase_client) noon mixed_store)
        \<and> (success (fst (execute sample_db (Some supabase_client) noon mixed_store)) \<longrightarrow>
             updated (fst (execute sample_db (Some supabase_client) noon
                             (snd (execute sample_db (Some supabase_client) noon mixed_store)))) = Some 0)"
    by simp
  with d r1 show ?thesis by simp
qed

text \<open>
  C5, as the specification states it, fails in both directions: the time \<open>10\<close> has one
  component and resolves, to 10:00:00; the time \<open>25:00\<close> has two numeric components
  and does not resolve.
\<close>

theorem resolve_time_components_counterexample:
  "split_colon (str ''10'') = [(str ''10'')]
   \<and> event_datetime sample_db (str ''2024-06-01'') (Some (str ''10'')) = Inr (2024, 6, 1, 10, 0, 0, 0)
   \<and> split_colon (str ''25:00'') = [(str ''25''), (str ''00'')]
   \<and> py_int sample_db (str ''25'') = Inr 25 \<and> py_int sample_db (str ''00'') = Inr 0
   \<and> event_datetime sample_db (str ''2024-06-01'') (Some (str ''25:00'')) = Inl ValueError_time"
  by (simp add: sweep_defs parse_defs)

text \<open>
  C5, amended. For a time string that is not empty, the first three components between
  colons are read by \<open>int()\<close>; minute and second count as 0 when absent, and components
  after the third are ignored. The resolution fails in \<open>int()\<close> exactly when one of
  these components is no number; otherwise it fails on the date exactly when the date
  string does not parse; otherwise it fails in \<open>time()\<close> exactly when hour, minute or
  second is outside 0..23, 0..59, 0..59 (with \<open>OverflowError\<close> when one of them does
  not fit in 32 bits, with \<open>ValueError\<close> else); otherwise it succeeds with the parsed
  date and these fields. A date string that parses is a calendar date. For every
  calendar date written \<open>YYYY-MM-DD\<close> and every hour, minute and second in range,
  written \<open>HH:MM:SS\<close>, \<open>HH:MM\<close> or \<open>HH\<close>, the resolution succeeds with that
  date and time.
\<close>

theorem resolve_schedule:
  assumes "st \<noteq> []"
  shows "event_datetime db sd (Some st) =
           (case time_fields db st of
              None \<Rightarrow> Inl ValueError_int
            | Some (h, m, sec) \<Rightarrow>
                (case strptime_date db sd of
                   Inl e \<Rightarrow> Inl ValueError_date
                 | Inr d \<Rightarrow>
                     if \<not> (fits_c_int h \<and> fits_c_int m \<and> fits_c_int sec)
                     then Inl OverflowError
                     else if 0 \<le> h \<and> h < 24 \<and> 0 \<le> m \<and> m < 60 \<and> 0 \<le> sec \<and> sec < 60
                     then Inr (combine d (h, m, sec, 0))
                     else Inl ValueError_time))
       \<and> (strptime_date db sd = Inr (y', mo', dd') \<longrightarrow>
            1 \<le> y' \<and> y' \<le> 9999 \<and> 1 \<le> mo' \<and> mo' \<le> 12 \<and> 1 \<le> dd' \<and> dd' \<le> days_in_month y' mo')
       \<and> (hh < 24 \<and> mm < 60 \<and> ss < 60
            \<and> 1 \<le> y \<and> y \<le> 9999 \<and> 1 \<le> mo \<and> mo \<le> 12 \<and> 1 \<le> dd
            \<and> int dd \<le> days_in_month (int y) (int mo) \<longrightarrow>
            event_datetime db (yyyy_mm_dd y mo dd) (Some (hh_mm_ss hh mm ss))
              = Inr (int y, int mo, int dd, int hh, int mm, int ss, 0)
            \<and> event_datetime db (yyyy_mm_dd y mo dd) (Some (hh_mm hh mm))
              = Inr (int y, int mo, int dd, int hh, int mm, 0, 0)
            \<and> event_datetime db (yyyy_mm_dd y mo dd) (Some (two_digits hh))
              = Inr (int y, int mo, int dd, int hh, 0, 0, 0))"
proof (intro conjI impI)
  show "event_datetime db sd (Some st) =
           (case time_fields db st of
              None \<Rightarrow> Inl ValueError_int
            | Some (h, m, sec) \<Rightarrow>
                (case strptime_date db sd of
                   Inl e \<Rightarrow> Inl ValueError_date
                 | Inr d \<Rightarrow>
                     if \<not> (fits_c_int h \<and> fits_c_int m \<and> fits_c_int sec)
                     then Inl OverflowError
                     else if 0 \<le> h \<and> h < 24 \<and> 0 \<le> m \<and> m < 60 \<and> 0 \<le> sec \<and> sec < 60
                     then Inr (combine d (h, m, sec, 0))
                     else Inl ValueError_time))"
    using assms by (simp add: event_datetime_def timed_datetime_fields)
next
  assume "strptime_date db sd = Inr (y', mo', dd')"
  from strptime_date_sound [OF this]
  show "1 \<le> y'" "y' \<le> 9999" "1 \<le> mo'" "mo' \<le> 12" "1 \<le> dd'" "dd' \<le> days_in_month y' mo'"
    by simp_all
next
  assume a: "hh < 24 \<and> mm < 60 \<and> ss < 60
            \<and> 1 \<le> y \<and> y \<le> 9999 \<and> 1 \<le> mo \<and> mo \<le> 12 \<and> 1 \<le> dd
            \<and> int dd \<le> days_in_month (int y) (int mo)"
  then have t: "hh < 100" "mm < 100" "ss < 100" by simp_all
  from a have d: "strptime_date db (yyyy_mm_dd y mo dd) = Inr (int y, int mo, int dd)"
    by (simp add: strptime_date_valid)
  have ne: "hh_mm_ss hh mm ss \<noteq> []" "hh_mm hh mm \<noteq> []" "two_digits hh \<noteq> []"
    by (simp_all add: hh_mm_ss_def hh_mm_def two_digits_def)
  from a show "event_datetime db (yyyy_mm_dd y mo dd) (Some (hh_mm_ss hh mm ss))
              = Inr (int y, int mo, int dd, int hh, int mm, int ss, 0)"
    by (simp add: event_datetime_def ne timed_datetime_fields time_fields_formats [OF t] d
        combine_def fits_c_int_def)
  from a show "event_datetime db (yyyy_mm_dd y mo dd) (Some (hh_mm hh mm))
              = Inr (int y, int mo, int dd, int hh, int mm, 0, 0)"
    by (simp add: event_datetime_def ne timed_datetime_fields time_fields_formats [OF t] d
        combine_def fits_c_int_def)
  from a show "event_datetime db (yyyy_mm_dd y mo dd) (Some (two_digits hh))
              = Inr (int y, int mo, int dd, int hh, 0, 0, 0)"
    by (simp add: event_datetime_def ne timed_datetime_fields time_fields_formats [OF t] d
        combine_def fits_c_int_def)
qed

theorem resolve_schedule_witness:
  "(str ''10:30'') \<noteq> []
   \<and> event_datetime sample_db (str ''2024-06-01'') (Some (str ''10:30:00'')) = Inr (2024, 6, 1, 10, 30, 0, 0)
   \<and> event_datetime sample_db (str ''2024-06-01'') (Some (str ''10:30'')) = Inr (2024, 6, 1, 10, 30, 0, 0)
   \<and> event_datetime sample_db (str ''2024-06-01'') (Some (str ''10'')) = Inr (2024, 6, 1, 10, 0, 0, 0)"
proof -
  have ne: "(str ''10:30'') \<noteq> []" by simp
  have h: "(10::nat) < 24 \<and> (30::nat) < 60 \<and> (0::nat) < 60
      \<and> (1::nat) \<le> 2024 \<and> (2024::nat) \<le> 9999 \<and> (1::nat) \<le> 6 \<and> (6::nat) \<le> 12 \<and> (1::nat) \<le> 1
      \<and> int 1 \<le> days_in_month (int 2024) (int 6)"
    by (simp add: days_in_month_def)
  from resolve_schedule [OF ne, where db = sample_db and hh = 10 and mm = 30 and ss = 0
         and y = 2024 and mo = 6 and dd = 1] h
  have "event_datetime sample_db (yyyy_mm_dd 2024 6 1) (Some (hh_mm_ss 10 30 0))
          = Inr (int 2024, int 6, int 1, int 10, int 30, int 0, 0)
        \<and> event_datetime sample_db (yyyy_mm_dd 2024 6 1) (Some (hh_mm 10 30))
          = Inr (int 2024, int 6, int 1, int 10, int 30, 0, 0)
        \<and> event_datetime sample_db (yyyy_mm_dd 2024 6 1) (Some (two_digits 10))
          = Inr (int 2024, int 6, int 1, int 10, 0, 0, 0)"
    by blast
  then show ?thesis unfolding formats_eval by simp
qed

section \<open>Participation\<close>

text \<open>
  C8. A store that holds at most one participation per pair (event, user) still does
  after any sequence of participate requests. A request that is accepted (a valid type,
  an event that exists) leaves exactly one record for its pair, carrying the requested
  type: an existing record is overwritten, none is added beside it.
\<close>

theorem one_record_per_pair:
  assumes "distinct (map pair_of (event_participants s))"
  shows "distinct (map pair_of (event_participants (participate_all requests s)))
       \<and> (pt \<in> {(str ''joined''), (str ''interested'')} \<and> e \<in> dest_id ` set (destinations (participate_all requests s)) \<longrightarrow>
            filter (\<lambda>p. pair_of p = (e, u))
              (event_participants
                 (snd (participate_event (Some supabase_client) u (Some pt) e (participate_all requests s))))
            = [\<lparr>event_id = e, participant_user_id = u, participation_type = pt\<rparr>])"
proof -
  let ?s = "participate_all requests s"
  let ?new = "\<lparr>event_id = e, participant_user_id = u, participation_type = pt\<rparr>"
  let ?s' = "snd (participate_event (Some supabase_client) u (Some pt) e ?s)"
  have d: "distinct (map pair_of (event_participants ?s))"
    using assms by (rule participate_all_distinct)
  have d': "distinct (map pair_of (event_participants ?s'))"
    using d by (rule participate_event_distinct)
  have "filter (\<lambda>p. pair_of p = (e, u)) (event_participants ?s') = [?new]"
    if ok: "pt \<in> {(str ''joined''), (str ''interested'')}" "e \<in> dest_id ` set (destinations ?s)"
  proof -
    have "?new \<in> set (event_participants ?s')"
    proof (cases "(e, u) \<in> set (map pair_of (event_participants ?s))")
      case True
      then obtain p where p: "p \<in> set (event_participants ?s)" "pair_of p = (e, u)" by auto
      then have "set_participation e u pt p = ?new"
        by (cases p) (auto simp: set_participation_def pair_of_def)
      with p(1) have "?new \<in> set (map (set_participation e u pt) (event_participants ?s))"
        by force
      with True ok show ?thesis by (simp add: participate_event_store)
    next
      case False
      with ok show ?thesis by (simp add: participate_event_store)
    qed
    from filter_pair_distinct [OF d' this] show ?thesis by (simp add: pair_of_def)
  qed
  with d show ?thesis by blast
qed


theorem one_record_per_pair_witness:
  "distinct (map pair_of (event_participants all_day_store))
   \<and> (str ''interested'') \<in> {(str ''joined''), (str ''interested'')}
   \<and> 1 \<in> dest_id ` set (destinations (participate_all [(5, Some (str ''joined''), 1)] all_day_store))
   \<and> event_participants (participate_all [(5, Some (str ''joined''), 1)] all_day_store)
       = [\<lparr>event_id = 1, participant_user_id = 5, participation_type = (str ''joined'')\<rparr>]
   \<and> filter (\<lambda>p. pair_of p = (1, 5))
        (event_participants
           (snd (participate_event (Some supabase_client) 5 (Some (str ''interested'')) 1
                   (participate_all [(5, Some (str ''joined''), 1)] all_day_store))))
       = [\<lparr>event_id = 1, participant_user_id = 5, participation_type = (str ''interested'')\<rparr>]"
proof -
  have d: "distinct (map pair_of (event_participants all_day_store))"
    by (simp add: all_day_store_def)
  have s: "participate_all [(5, Some (str ''joined''), 1)] all_day_store
             = all_day_store\<lparr>event_participants :=
                 [\<lparr>event_id = 1, participant_user_id = 5, participation_type = (str ''joined'')\<rparr>]\<rparr>"
    by (simp add: participate_event_store all_day_store_def all_day_event_def)
  have e: "1 \<in> dest_id ` set (destinations (participate_all [(5, Some (str ''joined''), 1)] all_day_store))"
    unfolding s by (simp add: all_day_store_def all_day_event_def)
  from one_record_per_pair [OF d, of "[(5, Some (str ''joined''), 1)]" "(str ''interested'')" 1 5] e
  have "filter (\<lambda>p. pair_of p = (1, 5))
        (event_participants
           (snd (participate_event (Some supabase_client) 5 (Some (str ''interested'')) 1
                   (participate_all [(5, Some (str ''joined''), 1)] all_day_store))))
       = [\<lparr>event_id = 1, participant_user_id = 5, participation_type = (str ''interested'')\<rparr>]"
    by simp
  with d e s show ?thesis by simp
qed

section \<open>Aggregation\<close>

text \<open>
  What holds of the returned list in every case: it has at most one entry per event id,
  and an entry whose id is among the events the user owns has \<open>is_organizer = True\<close>;
  when the body of the route does not fail, every owned event has such an entry.
\<close>

lemma merged_entries:
  "distinct (map (\<lambda>v. dest_id (dest v)) (get_destinations (Some c) u s))
   \<and> (destinations_select_user c u s = Inr created \<longrightarrow>
        (\<forall>v \<in> set (get_destinations (Some c) u s).
            dest_id (dest v) \<in> dest_id ` set created \<longrightarrow> is_organizer v)
        \<and> (\<forall>result. get_destinations_try c u s = Inr result \<longrightarrow>
              (\<forall>d \<in> set created. \<exists>v \<in> set result. dest_id (dest v) = dest_id d \<and> is_organizer v)))"
proof (cases "get_destinations_try c u s")
  case (Inl e)
  then show ?thesis by (simp add: get_destinations_def)
next
  case (Inr result)
  then obtain created' ps pds al named where
    cr: "destinations_select_user c u s = Inr created'"
    and part: "add_participant ps pds (add_created created' []) = Inr al"
    and names: "add_organizer_names c s al = Inr named"
    and sorted: "sort_views (map snd named) = Inr result"
    unfolding get_destinations_try_def collect_destinations_def by (auto split: sum.splits)
  have res: "result = sort_key key_of (map snd named)"
    using sorted by (rule sort_views_result)
  have got: "get_destinations (Some c) u s = result"
    using Inr by (simp add: get_destinations_def)
  from merged_core [OF part names] res cr Inr got show ?thesis
    by (simp add: distinct_map_sort_key)
qed

text \<open>
  C6. User 7 owns event 1 and has joined it, and has also joined event 5 of user 8. The
  query on \<open>event_participants\<close> selects the column \<open>event_id\<close> only, so reading
  \<open>participation_type\<close> for event 5 raises \<open>KeyError\<close>, and the route returns the
  empty list: the event that is owned and joined does not appear at all.
\<close>

theorem owned_and_joined_event_missing:
  "destinations_select_user supabase_client 7 joined_store = Inr [all_day_event]
   \<and> participants_select_user supabase_client 7 joined_store
       = Inr [\<lparr>row_event_id = 1, row_participation_type = None\<rparr>,
              \<lparr>row_event_id = 5, row_participation_type = None\<rparr>]
   \<and> get_destinations_try supabase_client 7 joined_store = Inl KeyError
   \<and> get_destinations (Some supabase_client) 7 joined_store = []"
  by (simp add: aggregate_defs joined_store_def all_day_event_def other_event_def)

text \<open>
  Without the participation in the event of user 8 the same user gets the owned and
  joined event once, as organizer.
\<close>

lemma owned_and_joined_event_alone:
  "get_destinations (Some supabase_client) 7 own_event_store
     = [\<lparr>dest = all_day_event, is_organizer = True, view_participation_type = None,
         organizer_name = Some (Some (str ''Ann''))\<rparr>]"
  by (simp add: aggregate_defs own_event_store_def all_day_event_def)

text \<open>
  C2. On the example of the specification the sort does not return: the two events of
  1 January have the keys \<open>('2024-01-01', None)\<close> and \<open>('2024-01-01', '09:00:00')\<close>,
  comparing them raises \<open>TypeError\<close>, and the route returns the empty list.
\<close>

theorem aggregate_sort_same_day:
  "key_lt (key_of \<lparr>dest = jan1_morning, is_organizer = True, view_participation_type = None,
                    organizer_name = Some (Some (str ''Ann''))\<rparr>)
          (key_of \<lparr>dest = jan1_all_day, is_organizer = True, view_participation_type = None,
                    organizer_name = Some (Some (str ''Ann''))\<rparr>) = Inl TypeError
   \<and> get_destinations_try supabase_client 7 new_year_store = Inl TypeError
   \<and> get_destinations (Some supabase_client) 7 new_year_store = []"
  by (simp add: aggregate_defs new_year_defs)

text \<open>
  C9. When a step of the aggregation fails, \<open>get_destinations\<close> returns the empty
  list: the query of the owned events, the query of the participations, the query of the
  events taken part in, the lookup of the owner of an entry, the sort, and with them any
  failure of the body.
\<close>

theorem aggregate_failure_gives_empty:
  "(destinations_select_user c u s = Inl e \<longrightarrow> get_destinations (Some c) u s = [])
   \<and> (participants_select_user c u s = Inl e \<longrightarrow> get_destinations (Some c) u s = [])
   \<and> (participants_select_user c u s = Inr ps \<and> ps \<noteq> []
        \<and> destinations_select_in c (map row_event_id ps) s = Inl e
        \<longrightarrow> get_destinations (Some c) u s = [])
   \<and> (destinations_select_user c u s = Inr created
        \<and> participants_select_user c u s = Inr ps
        \<and> (if map row_event_id ps \<noteq> [] then destinations_select_in c (map row_event_id ps) s
            else Inr []) = Inr pds
        \<and> add_participant ps pds (add_created created []) = Inr al
        \<and> (k, v) \<in> set al \<and> user_id (dest v) = Some owner \<and> owner \<noteq> 0
        \<and> users_select c owner s = Inl e
        \<longrightarrow> get_destinations (Some c) u s = [])
   \<and> (collect_destinations c u s = Inr all_destinations
        \<and> sort_views (map snd all_destinations) = Inl e
        \<longrightarrow> get_destinations (Some c) u s = [])
   \<and> (get_destinations_try c u s = Inl e \<longrightarrow> get_destinations (Some c) u s = [])"
proof (intro conjI impI)
  assume "destinations_select_user c u s = Inl e"
  then have "collect_destinations c u s = Inl e" by (simp add: collect_destinations_def)
  then show "get_destinations (Some c) u s = []" by (rule collect_fails_empty)
next
  assume "participants_select_user c u s = Inl e"
  then have "\<exists>e'. collect_destinations c u s = Inl e'"
    by (simp add: collect_destinations_def split: sum.splits)
  then show "get_destinations (Some c) u s = []" by (auto intro: collect_fails_empty)
next
  assume "participants_select_user c u s = Inr ps \<and> ps \<noteq> []
        \<and> destinations_select_in c (map row_event_id ps) s = Inl e"
  then have "\<exists>e'. collect_destinations c u s = Inl e'"
    by (simp add: collect_destinations_def split: sum.splits)
  then show "get_destinations (Some c) u s = []" by (auto intro: collect_fails_empty)
next
  assume a: "destinations_select_user c u s = Inr created
        \<and> participants_select_user c u s = Inr ps
        \<and> (if map row_event_id ps \<noteq> [] then destinations_select_in c (map row_event_id ps) s
            else Inr []) = Inr pds
        \<and> add_participant ps pds (add_created created []) = Inr al
        \<and> (k, v) \<in> set al \<and> user_id (dest v) = Some owner \<and> owner \<noteq> 0
        \<and> users_select c owner s = Inl e"
  then have w: "with_organizer_name c s v = Inl e" by (simp add: with_organizer_name_def)
  from a have "(k, v) \<in> set al" by simp
  from add_organizer_names_fails [OF this w]
  obtain e' where "add_organizer_names c s al = Inl e'" ..
  with a have "collect_destinations c u s = Inl e'"
    by (simp add: collect_destinations_def)
  then show "get_destinations (Some c) u s = []" by (rule collect_fails_empty)
next
  assume "collect_destinations c u s = Inr all_destinations
        \<and> sort_views (map snd all_destinations) = Inl e"
  then have "get_destinations_try c u s = Inl e" by (simp add: get_destinations_try_def)
  then show "get_destinations (Some c) u s = []" by (rule try_fails_empty)
next
  assume "get_destinations_try c u s = Inl e"
  then show "get_destinations (Some c) u s = []" by (rule try_fails_empty)
qed

theorem aggregate_failure_gives_empty_witness:
  "destinations_select_user failing_client 7 new_year_store = Inl StoreError
   \<and> get_destinations (Some failing_client) 7 new_year_store = []
   \<and> get_destinations_try supabase_client 7 new_year_store = Inl TypeError
   \<and> get_destinations (Some supabase_client) 7 new_year_store = []"
proof -
  have q: "destinations_select_user failing_client 7 new_year_store = Inl StoreError"
    by (simp add: failing_client_def)
  have t: "get_destinations_try supabase_client 7 new_year_store = Inl TypeError"
    by (simp add: aggregate_defs new_year_defs)
  from aggregate_failure_gives_empty [of failing_client 7 new_year_store StoreError] q
  have 1: "get_destinations (Some failing_client) 7 new_year_store = []" by blast
  from aggregate_failure_gives_empty [of supabase_client 7 new_year_store TypeError] t
  have 2: "get_destinations (Some supabase_client) 7 new_year_store = []" by blast
  from q t 1 2 show ?thesis by blast
qed

end
